theory Spec2Isabelle
  imports Complex_Main "HOL-Library.AList" "HOL-Library.Log_Nat"
begin

section \<open>Data model\<close>

text \<open>
  The development embeds two source files of the trading bot:
  \<^verbatim>\<open>src/services/price_monitor_service.py\<close> (class \<^verbatim>\<open>PriceMonitorService\<close>) and
  \<^verbatim>\<open>src/utils/profit_sl_calculator.py\<close> (class \<^verbatim>\<open>ProfitBookingSLCalculator\<close>).

  Conventions of the embedding:
  \<^item> The prices of the monitor are exact reals: the monitor compares them and hands them on.
    The calculator, whose results depend on rounding, computes with IEEE doubles.
  \<^item> A Python exception is a value of type \<open>error\<close>; a function that can raise returns
    \<open>error + 'a\<close>, with \<open>Inl\<close> for the exception.
  \<^item> The configuration keys that the code reads with \<^verbatim>\<open>config[...]\<close> are fields of a record
    (a well-formed configuration has them); the per-symbol table is a partial map, since the
    code handles a symbol that is missing from it; a key read with \<^verbatim>\<open>.get(key, default)\<close>
    is an optional field.
  \<^item> Log lines are not part of the state.
\<close>

datatype error = KeyError string | ZeroDivisionError

record symbol_config_entry =
  pip_size :: real
  pip_value_per_std_lot :: real

record re_entry_config =
  sl_hunt_reentry_enabled :: bool
  tp_reentry_enabled :: bool
  exit_continuation_enabled :: "bool option"
  sl_hunt_offset_pips :: real
  tp_continuation_price_gap_pips :: real
  sl_reduction_per_level :: real

record config =
  re_entry_config :: re_entry_config
  symbol_config :: "string \<rightharpoonup> symbol_config_entry"
  simulate_orders :: "bool option"
  rr_ratio :: real

section \<open>IEEE doubles\<close>

text \<open>
  The numbers of \<^verbatim>\<open>ProfitBookingSLCalculator\<close> are Python floats, that is IEEE-754 binary64
  values. A double is its exact value, an infinity or NaN; the sign of a zero is not kept (the
  calculator does nothing that tells \<open>0.0\<close> from \<open>-0.0\<close>). Every arithmetic operation computes
  the exact result and rounds it to the nearest double, ties to the even mantissa:
  \<^item> \<open>ilog2 x\<close> is the binary exponent \<open>\<lfloor>log\<^sub>2 x\<rfloor>\<close> of a positive \<open>x\<close>, computed from bit lengths;
  \<^item> \<open>expo x\<close> is that exponent, but at least \<open>-1022\<close> (below it the doubles are subnormal and
    equally spaced), and \<open>ulp x = 2 ^ (expo x - 52)\<close> is the spacing of the doubles around \<open>x\<close>;
  \<^item> \<open>nearest x\<close> is the multiple of \<open>ulp x\<close> nearest to \<open>x\<close>;
  \<^item> \<open>round_double x\<close> is \<open>nearest x\<close>, or an infinity when its exponent exceeds 1023.
  Python raises \<^verbatim>\<open>ZeroDivisionError\<close> for a float division by zero and lets every other
  operation return an infinity or NaN silently.
\<close>

datatype double = Finite real | PosInf | NegInf | NaN

definition ilog2 :: "real \<Rightarrow> int" where
  "ilog2 x = (if 1 \<le> x then bitlen \<lfloor>x\<rfloor> - 1 else - bitlen (\<lceil>1 / x\<rceil> - 1))"

definition round_half_even :: "real \<Rightarrow> int" where
  "round_half_even t =
     (let f = \<lfloor>t\<rfloor>; d = t - of_int f
      in if d < 1 / 2 then f else if 1 / 2 < d then f + 1 else if even f then f else f + 1)"

definition expo :: "real \<Rightarrow> int" where
  "expo x = max (ilog2 \<bar>x\<bar>) (- 1022)"

definition ulp :: "real \<Rightarrow> real" where
  "ulp x = 2 powi (expo x - 52)"

definition nearest :: "real \<Rightarrow> real" where
  "nearest x = of_int (round_half_even (x / ulp x)) * ulp x"

definition round_double :: "real \<Rightarrow> double" where
  "round_double x =
     (if x = 0 then Finite 0
      else if 1024 \<le> ilog2 \<bar>nearest x\<bar> then (if 0 < x then PosInf else NegInf)
      else Finite (nearest x))"

fun fl_add :: "double \<Rightarrow> double \<Rightarrow> double" where
  "fl_add (Finite a) (Finite b) = round_double (a + b)"
| "fl_add NaN y = NaN"
| "fl_add x NaN = NaN"
| "fl_add PosInf NegInf = NaN"
| "fl_add NegInf PosInf = NaN"
| "fl_add PosInf y = PosInf"
| "fl_add NegInf y = NegInf"
| "fl_add (Finite a) y = y"

fun fl_sub :: "double \<Rightarrow> double \<Rightarrow> double" where
  "fl_sub (Finite a) (Finite b) = round_double (a - b)"
| "fl_sub NaN y = NaN"
| "fl_sub x NaN = NaN"
| "fl_sub PosInf PosInf = NaN"
| "fl_sub NegInf NegInf = NaN"
| "fl_sub PosInf y = PosInf"
| "fl_sub NegInf y = NegInf"
| "fl_sub (Finite a) PosInf = NegInf"
| "fl_sub (Finite a) NegInf = PosInf"

fun signed_inf :: "bool \<Rightarrow> double" where
  "signed_inf positive = (if positive then PosInf else NegInf)"

fun fl_mul :: "double \<Rightarrow> double \<Rightarrow> double" where
  "fl_mul (Finite a) (Finite b) = round_double (a * b)"
| "fl_mul NaN y = NaN"
| "fl_mul x NaN = NaN"
| "fl_mul PosInf (Finite b) = (if b = 0 then NaN else signed_inf (0 < b))"
| "fl_mul NegInf (Finite b) = (if b = 0 then NaN else signed_inf (b < 0))"
| "fl_mul (Finite a) PosInf = (if a = 0 then NaN else signed_inf (0 < a))"
| "fl_mul (Finite a) NegInf = (if a = 0 then NaN else signed_inf (a < 0))"
| "fl_mul PosInf PosInf = PosInf"
| "fl_mul NegInf NegInf = PosInf"
| "fl_mul PosInf NegInf = NegInf"
| "fl_mul NegInf PosInf = NegInf"

fun fl_div :: "double \<Rightarrow> double \<Rightarrow> error + double" where
  "fl_div (Finite a) (Finite b) =
     (if b = 0 then Inl ZeroDivisionError else Inr (round_double (a / b)))"
| "fl_div x (Finite b) =
     (if b = 0 then Inl ZeroDivisionError
      else Inr (case x of NaN \<Rightarrow> NaN | PosInf \<Rightarrow> signed_inf (0 < b)
                | NegInf \<Rightarrow> signed_inf (b < 0) | Finite a \<Rightarrow> NaN))"
| "fl_div NaN y = Inr NaN"
| "fl_div x NaN = Inr NaN"
| "fl_div (Finite a) y = Inr (Finite 0)"
| "fl_div x y = Inr NaN"

fun fl_abs :: "double \<Rightarrow> double" where
  "fl_abs (Finite a) = Finite \<bar>a\<bar>"
| "fl_abs PosInf = PosInf"
| "fl_abs NegInf = PosInf"
| "fl_abs NaN = NaN"

fun fl_le :: "double \<Rightarrow> double \<Rightarrow> bool" where
  "fl_le (Finite a) (Finite b) = (a \<le> b)"
| "fl_le NaN y = False"
| "fl_le x NaN = False"
| "fl_le NegInf y = True"
| "fl_le x PosInf = True"
| "fl_le x y = False"


text \<open>A real number is a double when rounding leaves it as it is.\<close>

definition is_double :: "real \<Rightarrow> bool" where
  "is_double x = (round_double x = Finite x)"

section \<open>ProfitBookingSLCalculator\<close>

text \<open>
  A decimal literal of the source, and a number of the configuration, is the double nearest to
  the number written.
\<close>

definition lit :: "real \<Rightarrow> double" where
  "lit x = round_double x"

text \<open>\<^verbatim>\<open>self.fixed_sl_dollar = 10.0\<close>\<close>

definition fixed_sl_dollar :: double where
  "fixed_sl_dollar = Finite 10"

text \<open>
  \<^verbatim>\<open>calculate_sl_price(entry_price, direction, symbol, lot_size)\<close>. The \<^verbatim>\<open>try\<close> body looks the
  symbol up and divides by the pip value. A missing symbol (\<^verbatim>\<open>KeyError\<close>) runs the fallback
  handler with the default pip constants; a division by zero inside the \<^verbatim>\<open>try\<close> body is caught
  by \<^verbatim>\<open>except Exception\<close> and answers the fixed distance \<^verbatim>\<open>0.01 * 50\<close>; a division by zero
  inside the \<^verbatim>\<open>KeyError\<close> handler itself is not caught by the sibling handler and leaves the
  function.
\<close>

definition calculate_sl_price ::
    "config \<Rightarrow> double \<Rightarrow> string \<Rightarrow> string \<Rightarrow> double \<Rightarrow> error + (double \<times> double)" where
  "calculate_sl_price cfg entry_price dir sy lots =
     (case symbol_config cfg sy of
        Some sc \<Rightarrow>
          (let pip_sz = lit (pip_size sc);
               pip_value = fl_mul (lit (pip_value_per_std_lot sc)) lots
           in case fl_div fixed_sl_dollar pip_value of
                Inl e \<Rightarrow>
                  (if dir = ''buy''
                   then Inr (fl_sub entry_price (fl_mul (lit (1 / 100)) (Finite 50)),
                             fl_mul (lit (1 / 100)) (Finite 50))
                   else Inr (fl_add entry_price (fl_mul (lit (1 / 100)) (Finite 50)),
                             fl_mul (lit (1 / 100)) (Finite 50)))
              | Inr sl_pips \<Rightarrow>
                  (let sl_distance = fl_mul sl_pips pip_sz
                   in if dir = ''buy'' then Inr (fl_sub entry_price sl_distance, sl_distance)
                      else Inr (fl_add entry_price sl_distance, sl_distance)))
      | None \<Rightarrow>
          (let pip_sz = lit (1 / 100);
               pip_value = fl_mul (Finite 10) lots
           in case fl_div fixed_sl_dollar pip_value of
                Inl e \<Rightarrow> Inl e
              | Inr sl_pips \<Rightarrow>
                  (let sl_distance = fl_mul sl_pips pip_sz
                   in if dir = ''buy'' then Inr (fl_sub entry_price sl_distance, sl_distance)
                      else Inr (fl_add entry_price sl_distance, sl_distance))))"

definition get_pip_value :: "config \<Rightarrow> string \<Rightarrow> double \<Rightarrow> double" where
  "get_pip_value cfg sy lots =
     (case symbol_config cfg sy of
        Some sc \<Rightarrow> fl_mul (lit (pip_value_per_std_lot sc)) lots
      | None \<Rightarrow> fl_mul (Finite 10) lots)"

text \<open>
  The dictionary returned by \<^verbatim>\<open>validate_sl_loss\<close>. The success branch has the key
  \<^verbatim>\<open>tolerance\<close> and the failure branch the key \<^verbatim>\<open>error\<close>; each is optional here.
\<close>

record sl_validation =
  valid :: bool
  actual_loss :: double
  expected_loss :: double
  difference :: double
  tolerance :: "double option"
  validation_error :: "error option"

definition validation_failed :: "error \<Rightarrow> sl_validation" where
  "validation_failed e =
     \<lparr>valid = False, actual_loss = Finite 0, expected_loss = fixed_sl_dollar,
      difference = fixed_sl_dollar, tolerance = None, validation_error = Some e\<rparr>"

definition validate_sl_loss ::
    "config \<Rightarrow> double \<Rightarrow> double \<Rightarrow> string \<Rightarrow> string \<Rightarrow> double \<Rightarrow> sl_validation" where
  "validate_sl_loss cfg entry_price sl_p dir sy lots =
     (case symbol_config cfg sy of
        None \<Rightarrow> validation_failed (KeyError sy)
      | Some sc \<Rightarrow>
          (let pip_sz = lit (pip_size sc);
               pip_value = fl_mul (lit (pip_value_per_std_lot sc)) lots;
               price_diff = fl_abs (fl_sub entry_price sl_p)
           in case fl_div price_diff pip_sz of
                Inl e \<Rightarrow> validation_failed e
              | Inr pips \<Rightarrow>
                  (let actual = fl_mul pips pip_value;
                       expected = fixed_sl_dollar;
                       tol = fl_mul expected (lit (5 / 100));
                       diff = fl_abs (fl_sub actual expected)
                   in \<lparr>valid = fl_le diff tol, actual_loss = actual, expected_loss = expected,
                       difference = diff, tolerance = Some tol, validation_error = None\<rparr>)))"

section \<open>Compounding stop-loss reduction\<close>

text \<open>
  Both execution routines compute
  \<^verbatim>\<open>sl_adjustment = (1 - reduction_per_level) ** chain.current_level\<close>.
  A chain level is a natural number: chains start at level 0 and are only advanced.
\<close>

definition sl_adjustment :: "real \<Rightarrow> nat \<Rightarrow> real" where
  "sl_adjustment reduction_per_level current_level = (1 - reduction_per_level) ^ current_level"

section \<open>PriceMonitorService: state and collaborators\<close>

text \<open>
  \<^verbatim>\<open>Trade\<close> (from \<^verbatim>\<open>src.models\<close>), with the fields the service sets. The field
  \<^verbatim>\<open>open_time\<close> is the wall clock and is left out. \<^verbatim>\<open>trade_id\<close> is \<open>None\<close> until the
  broker acknowledges the order.
\<close>

record trade =
  symbol :: string
  entry :: real
  sl :: real
  tp :: real
  lot_size :: real
  direction :: string
  strategy :: string
  chain_id :: "string option"
  chain_level :: nat
  is_re_entry :: bool
  trade_id :: "int option"

record reentry_chain =
  current_level :: nat
  max_level :: nat
  total_profit :: real

text \<open>
  The three kinds of pending entry, one record per dictionary that the registration
  functions store under the symbol.
\<close>

record sl_hunt_entry =
  target_price :: real
  sh_direction :: string
  sh_chain_id :: string
  sl_price :: real
  sh_logic :: string

record tp_continuation_entry =
  tp_price :: real
  tc_direction :: string
  tc_chain_id :: string
  tc_logic :: string

record exit_continuation_entry =
  exit_price :: real
  ec_direction :: string
  ec_logic :: string
  exit_reason :: string
  timeframe :: string

record alignment =
  aligned :: bool
  al_direction :: string

record tick =
  ask :: real
  bid :: real

text \<open>
  What the service hands to its collaborators: the arguments of
  \<^verbatim>\<open>mt5_client.place_order\<close> (symbol, order type, lot size, price, SL, TP and the comment
  tag), the row written to \<^verbatim>\<open>tp_reentry_events\<close> (chain id, symbol, trigger price,
  SL-reduction percent), the Telegram notification (kind, symbol, chain id) and the entry
  \<^verbatim>\<open>Alert\<close> given to \<^verbatim>\<open>trading_engine.process_alert\<close> (symbol, timeframe, signal, type,
  price).
\<close>

datatype comment = SL_HUNT_REENTRY string | TP_REENTRY string nat

datatype order = Order string string real real real real comment

datatype tp_reentry_event = TpReentryEvent string string real real

datatype message = SlHuntReentryMessage string string | TpReentryMessage string string

datatype alert = Alert string string string string real

text \<open>
  The collaborators that are not part of the two embedded files are parameters. Within one
  monitoring cycle each answers as a function of its arguments, and none calls back into the
  service. \<open>update_chain_level\<close> is \<^verbatim>\<open>reentry_manager.update_chain_level(chain_id, trade_id)\<close>
  acting on \<^verbatim>\<open>reentry_manager.active_chains\<close>.
\<close>

record collaborators =
  symbol_info_tick :: "string \<Rightarrow> tick option"
  check_logic_alignment :: "string \<Rightarrow> string \<Rightarrow> alignment"
  get_account_balance :: real
  get_fixed_lot_size :: "real \<Rightarrow> real"
  pip_calculate_sl_price :: "string \<Rightarrow> real \<Rightarrow> string \<Rightarrow> real \<Rightarrow> real \<Rightarrow> real \<Rightarrow> real \<times> real"
  pip_calculate_tp_price :: "real \<Rightarrow> real \<Rightarrow> string \<Rightarrow> real \<Rightarrow> real"
  place_order :: "order \<Rightarrow> int option"
  update_chain_level ::
    "(string \<rightharpoonup> reentry_chain) \<Rightarrow> string \<Rightarrow> int option \<Rightarrow> (string \<rightharpoonup> reentry_chain)"

text \<open>
  The mutable state: the three pending dictionaries of the service (association lists in
  insertion order, as a Python dictionary iterates), the monitored symbols, and the state of
  the collaborators that the service writes to.
\<close>

record monitor_state =
  sl_hunt_pending :: "(string \<times> sl_hunt_entry) list"
  tp_continuation_pending :: "(string \<times> tp_continuation_entry) list"
  exit_continuation_pending :: "(string \<times> exit_continuation_entry) list"
  monitored_symbols :: "string set"
  active_chains :: "string \<rightharpoonup> reentry_chain"
  open_trades :: "trade list"
  risk_open_trades :: "trade list"
  placed_orders :: "order list"
  tp_reentry_events :: "tp_reentry_event list"
  sent_messages :: "message list"
  processed_alerts :: "alert list"

section \<open>PriceMonitorService: operations\<close>

text \<open>\<^verbatim>\<open>str.upper()\<close> on ASCII letters.\<close>

definition upper :: "string \<Rightarrow> string" where
  "upper s =
     map (\<lambda>c. if 97 \<le> (of_char c :: nat) \<and> (of_char c :: nat) \<le> 122
               then char_of ((of_char c :: nat) - 32) else c) s"

text \<open>The truth value of a broker ticket: \<^verbatim>\<open>None\<close> and \<^verbatim>\<open>0\<close> are falsy.\<close>

definition truthy :: "int option \<Rightarrow> bool" where
  "truthy r = (case r of None \<Rightarrow> False | Some t \<Rightarrow> t \<noteq> 0)"

definition get_current_price :: "config \<Rightarrow> collaborators \<Rightarrow> string \<Rightarrow> string \<Rightarrow> real option" where
  "get_current_price cfg env sy dir =
     (if (case simulate_orders cfg of None \<Rightarrow> True | Some b \<Rightarrow> b) then None
      else (case symbol_info_tick env sy of
              Some t \<Rightarrow> Some (if dir = ''buy'' then ask t else bid t)
            | None \<Rightarrow> None))"

text \<open>
  The comparison that all three checks make:
  \<^verbatim>\<open>if direction == 'buy': reached = current_price >= target_price
  else: reached = current_price <= target_price\<close>
\<close>

definition price_reached :: "string \<Rightarrow> real \<Rightarrow> real \<Rightarrow> bool" where
  "price_reached dir current_price target =
     (if dir = ''buy'' then current_price \<ge> target else current_price \<le> target)"

text \<open>
  The target of the two gap checks:
  \<^verbatim>\<open>price_gap = price_gap_pips * pip_size\<close>, added to the reference price for a buy and
  subtracted otherwise.
\<close>

definition gap_target_price :: "real \<Rightarrow> real \<Rightarrow> string \<Rightarrow> real \<Rightarrow> real" where
  "gap_target_price price_gap_pips pip_sz dir reference_price =
     (let price_gap = price_gap_pips * pip_sz
      in if dir = ''buy'' then reference_price + price_gap else reference_price - price_gap)"

text \<open>
  \<^verbatim>\<open>signal_direction = "BULLISH" if direction == "buy" else "BEARISH"\<close>, compared with
  \<^verbatim>\<open>alignment['direction'].upper()\<close>.
\<close>

definition direction_mismatch :: "string \<Rightarrow> alignment \<Rightarrow> bool" where
  "direction_mismatch dir al =
     (upper (al_direction al) \<noteq> (if dir = ''buy'' then ''BULLISH'' else ''BEARISH''))"

text \<open>
  \<^verbatim>\<open>_execute_sl_hunt_reentry(symbol, direction, price, chain_id, logic)\<close>. A chain that is
  missing or already at its maximum level returns at once. Otherwise the trade is built at
  \<^verbatim>\<open>chain.current_level + 1\<close>; the order goes to the broker unless the configuration simulates
  orders; the ticket is stored in the trade only when it is truthy; then, whatever the broker
  answered, the chain is updated, the trade is appended to the open trades of the engine and
  of the risk manager, and the notification is sent. Reading \<^verbatim>\<open>config["simulate_orders"]\<close>
  raises when the key is absent, before anything has been written.
\<close>

definition execute_sl_hunt_reentry ::
    "config \<Rightarrow> collaborators \<Rightarrow> string \<Rightarrow> string \<Rightarrow> real \<Rightarrow> string \<Rightarrow> string \<Rightarrow> monitor_state
     \<Rightarrow> error + monitor_state" where
  "execute_sl_hunt_reentry cfg env sy dir price cid logic s =
     (case active_chains s cid of
        None \<Rightarrow> Inr s
      | Some chain \<Rightarrow>
          if current_level chain \<ge> max_level chain then Inr s
          else
            (let reduction_per_level = sl_reduction_per_level (re_entry_config cfg);
                 adj = sl_adjustment reduction_per_level (current_level chain);
                 account_balance = get_account_balance env;
                 lot = get_fixed_lot_size env account_balance;
                 (sl_p, sl_distance) =
                    pip_calculate_sl_price env sy price dir lot account_balance adj;
                 tp_p = pip_calculate_tp_price env price sl_p dir (rr_ratio cfg);
                 t = \<lparr>symbol = sy, entry = price, sl = sl_p, tp = tp_p, lot_size = lot,
                      direction = dir, strategy = logic, chain_id = Some cid,
                      chain_level = current_level chain + 1, is_re_entry = True,
                      trade_id = None\<rparr>
             in case simulate_orders cfg of
                  None \<Rightarrow> Inl (KeyError ''simulate_orders'')
                | Some simulate \<Rightarrow>
                    (let ord = Order sy dir lot price sl_p tp_p (SL_HUNT_REENTRY logic);
                         ticket = (if simulate then None else place_order env ord);
                         t' = (if truthy ticket then t\<lparr>trade_id := ticket\<rparr> else t)
                     in Inr (s\<lparr>placed_orders :=
                                  (if simulate then placed_orders s else placed_orders s @ [ord]),
                                active_chains :=
                                  update_chain_level env (active_chains s) cid (trade_id t'),
                                open_trades := open_trades s @ [t'],
                                risk_open_trades := risk_open_trades s @ [t'],
                                sent_messages :=
                                  sent_messages s @ [SlHuntReentryMessage sy cid]\<rparr>))))"

text \<open>
  \<^verbatim>\<open>_execute_tp_continuation_reentry\<close> has the same shape; the order comment carries the
  chain level, and a row is written to \<^verbatim>\<open>tp_reentry_events\<close> before the notification.
\<close>

definition execute_tp_continuation_reentry ::
    "config \<Rightarrow> collaborators \<Rightarrow> string \<Rightarrow> string \<Rightarrow> real \<Rightarrow> string \<Rightarrow> string \<Rightarrow> monitor_state
     \<Rightarrow> error + monitor_state" where
  "execute_tp_continuation_reentry cfg env sy dir price cid logic s =
     (case active_chains s cid of
        None \<Rightarrow> Inr s
      | Some chain \<Rightarrow>
          if current_level chain \<ge> max_level chain then Inr s
          else
            (let reduction_per_level = sl_reduction_per_level (re_entry_config cfg);
                 adj = sl_adjustment reduction_per_level (current_level chain);
                 account_balance = get_account_balance env;
                 lot = get_fixed_lot_size env account_balance;
                 (sl_p, sl_distance) =
                    pip_calculate_sl_price env sy price dir lot account_balance adj;
                 tp_p = pip_calculate_tp_price env price sl_p dir (rr_ratio cfg);
                 t = \<lparr>symbol = sy, entry = price, sl = sl_p, tp = tp_p, lot_size = lot,
                      direction = dir, strategy = logic, chain_id = Some cid,
                      chain_level = current_level chain + 1, is_re_entry = True,
                      trade_id = None\<rparr>
             in case simulate_orders cfg of
                  None \<Rightarrow> Inl (KeyError ''simulate_orders'')
                | Some simulate \<Rightarrow>
                    (let ord = Order sy dir lot price sl_p tp_p
                                 (TP_REENTRY logic (current_level chain));
                         ticket = (if simulate then None else place_order env ord);
                         t' = (if truthy ticket then t\<lparr>trade_id := ticket\<rparr> else t)
                     in Inr (s\<lparr>placed_orders :=
                                  (if simulate then placed_orders s else placed_orders s @ [ord]),
                                active_chains :=
                                  update_chain_level env (active_chains s) cid (trade_id t'),
                                open_trades := open_trades s @ [t'],
                                risk_open_trades := risk_open_trades s @ [t'],
                                tp_reentry_events :=
                                  tp_reentry_events s
                                    @ [TpReentryEvent cid sy price ((1 - adj) * 100)],
                                sent_messages :=
                                  sent_messages s @ [TpReentryMessage sy cid]\<rparr>))))"

text \<open>
  One iteration of the loop of \<^verbatim>\<open>_check_sl_hunt_reentries\<close>, for one symbol of the key
  snapshot. Reading the pending entry raises \<^verbatim>\<open>KeyError\<close> when the symbol is gone. No price:
  \<^verbatim>\<open>continue\<close>, the entry stays. Price reached: the alignment gate decides; a failed or
  mismatching alignment deletes the entry; otherwise the re-entry is executed and the entry
  is deleted after it returns.
\<close>

definition sl_hunt_step ::
    "config \<Rightarrow> collaborators \<Rightarrow> string \<Rightarrow> monitor_state \<Rightarrow> error + monitor_state" where
  "sl_hunt_step cfg env sy s =
     (case map_of (sl_hunt_pending s) sy of
        None \<Rightarrow> Inl (KeyError sy)
      | Some pending \<Rightarrow>
          (case get_current_price cfg env sy (sh_direction pending) of
             None \<Rightarrow> Inr s
           | Some current_price \<Rightarrow>
               if price_reached (sh_direction pending) current_price (target_price pending) then
                 (let al = check_logic_alignment env sy (sh_logic pending) in
                  if \<not> aligned al then
                    Inr (s\<lparr>sl_hunt_pending := AList.delete sy (sl_hunt_pending s)\<rparr>)
                  else if direction_mismatch (sh_direction pending) al then
                    Inr (s\<lparr>sl_hunt_pending := AList.delete sy (sl_hunt_pending s)\<rparr>)
                  else
                    (case execute_sl_hunt_reentry cfg env sy (sh_direction pending)
                            current_price (sh_chain_id pending) (sh_logic pending) s of
                       Inl e \<Rightarrow> Inl e
                     | Inr s' \<Rightarrow>
                         Inr (s'\<lparr>sl_hunt_pending := AList.delete sy (sl_hunt_pending s')\<rparr>)))
               else Inr s))"

text \<open>
  One iteration of \<^verbatim>\<open>_check_tp_continuation_reentries\<close>. After the price, the symbol's pip
  size is read (\<^verbatim>\<open>KeyError\<close> for a symbol without configuration) and the diagnostic line
  divides the remaining gap by it (\<^verbatim>\<open>ZeroDivisionError\<close> for a pip size of zero); both happen
  before the gap is tested.
\<close>

definition tp_continuation_step ::
    "config \<Rightarrow> collaborators \<Rightarrow> string \<Rightarrow> monitor_state \<Rightarrow> error + monitor_state" where
  "tp_continuation_step cfg env sy s =
     (case map_of (tp_continuation_pending s) sy of
        None \<Rightarrow> Inl (KeyError sy)
      | Some pending \<Rightarrow>
          (case get_current_price cfg env sy (tc_direction pending) of
             None \<Rightarrow> Inr s
           | Some current_price \<Rightarrow>
               (case symbol_config cfg sy of
                  None \<Rightarrow> Inl (KeyError sy)
                | Some sc \<Rightarrow>
                    (let target = gap_target_price
                                    (tp_continuation_price_gap_pips (re_entry_config cfg))
                                    (pip_size sc) (tc_direction pending) (tp_price pending)
                     in if pip_size sc = 0 then Inl ZeroDivisionError
                        else if price_reached (tc_direction pending) current_price target then
                          (let al = check_logic_alignment env sy (tc_logic pending) in
                           if \<not> aligned al then
                             Inr (s\<lparr>tp_continuation_pending :=
                                       AList.delete sy (tp_continuation_pending s)\<rparr>)
                           else if direction_mismatch (tc_direction pending) al then
                             Inr (s\<lparr>tp_continuation_pending :=
                                       AList.delete sy (tp_continuation_pending s)\<rparr>)
                           else
                             (case execute_tp_continuation_reentry cfg env sy
                                     (tc_direction pending) current_price
                                     (tc_chain_id pending) (tc_logic pending) s of
                                Inl e \<Rightarrow> Inl e
                              | Inr s' \<Rightarrow>
                                  Inr (s'\<lparr>tp_continuation_pending :=
                                            AList.delete sy (tp_continuation_pending s')\<rparr>)))
                        else Inr s))))"

text \<open>
  One iteration of \<^verbatim>\<open>_check_exit_continuation_reentries\<close>. The gap is the TP-continuation
  gap; a fire that passes the gate hands a fresh entry alert to the trading engine and then
  deletes the entry.
\<close>

definition exit_continuation_step ::
    "config \<Rightarrow> collaborators \<Rightarrow> string \<Rightarrow> monitor_state \<Rightarrow> error + monitor_state" where
  "exit_continuation_step cfg env sy s =
     (case map_of (exit_continuation_pending s) sy of
        None \<Rightarrow> Inl (KeyError sy)
      | Some pending \<Rightarrow>
          (case get_current_price cfg env sy (ec_direction pending) of
             None \<Rightarrow> Inr s
           | Some current_price \<Rightarrow>
               (case symbol_config cfg sy of
                  None \<Rightarrow> Inl (KeyError sy)
                | Some sc \<Rightarrow>
                    (let target = gap_target_price
                                    (tp_continuation_price_gap_pips (re_entry_config cfg))
                                    (pip_size sc) (ec_direction pending) (exit_price pending)
                     in if pip_size sc = 0 then Inl ZeroDivisionError
                        else if price_reached (ec_direction pending) current_price target then
                          (let al = check_logic_alignment env sy (ec_logic pending) in
                           if \<not> aligned al then
                             Inr (s\<lparr>exit_continuation_pending :=
                                       AList.delete sy (exit_continuation_pending s)\<rparr>)
                           else if direction_mismatch (ec_direction pending) al then
                             Inr (s\<lparr>exit_continuation_pending :=
                                       AList.delete sy (exit_continuation_pending s)\<rparr>)
                           else
                             Inr (s\<lparr>processed_alerts :=
                                       processed_alerts s
                                         @ [Alert sy (timeframe pending)
                                              (if ec_direction pending = ''buy'' then ''buy''
                                               else ''sell'')
                                              ''entry'' current_price],
                                     exit_continuation_pending :=
                                       AList.delete sy (exit_continuation_pending s)\<rparr>))
                        else Inr s))))"

text \<open>
  \<^verbatim>\<open>for symbol in list(pending.keys()): ...\<close>: the body runs on each key of the snapshot in
  turn; an exception leaves the loop with the state reached so far.
\<close>

fun for_each :: "('k \<Rightarrow> 's \<Rightarrow> error + 's) \<Rightarrow> 'k list \<Rightarrow> 's \<Rightarrow> 's \<times> error option" where
  "for_each body [] s = (s, None)"
| "for_each body (k # ks) s =
     (case body k s of Inl e \<Rightarrow> (s, Some e) | Inr s' \<Rightarrow> for_each body ks s')"

definition check_sl_hunt_reentries ::
    "config \<Rightarrow> collaborators \<Rightarrow> monitor_state \<Rightarrow> monitor_state \<times> error option" where
  "check_sl_hunt_reentries cfg env s =
     (if \<not> sl_hunt_reentry_enabled (re_entry_config cfg) then (s, None)
      else for_each (sl_hunt_step cfg env) (map fst (sl_hunt_pending s)) s)"

definition check_tp_continuation_reentries ::
    "config \<Rightarrow> collaborators \<Rightarrow> monitor_state \<Rightarrow> monitor_state \<times> error option" where
  "check_tp_continuation_reentries cfg env s =
     (if \<not> tp_reentry_enabled (re_entry_config cfg) then (s, None)
      else for_each (tp_continuation_step cfg env) (map fst (tp_continuation_pending s)) s)"

definition check_exit_continuation_reentries ::
    "config \<Rightarrow> collaborators \<Rightarrow> monitor_state \<Rightarrow> monitor_state \<times> error option" where
  "check_exit_continuation_reentries cfg env s =
     (if \<not> (case exit_continuation_enabled (re_entry_config cfg) of None \<Rightarrow> True | Some b \<Rightarrow> b)
      then (s, None)
      else for_each (exit_continuation_step cfg env) (map fst (exit_continuation_pending s)) s)"

text \<open>
  The three trigger checks of \<^verbatim>\<open>_check_all_opportunities\<close>, in the order of the source. An
  exception in one check skips the later ones (it is caught by the monitor loop). The fourth
  call, the profit-booking check, works on the profit-booking manager only and is not embedded.
\<close>

definition check_all_opportunities ::
    "config \<Rightarrow> collaborators \<Rightarrow> monitor_state \<Rightarrow> monitor_state \<times> error option" where
  "check_all_opportunities cfg env s =
     (case check_sl_hunt_reentries cfg env s of
        (s1, Some e) \<Rightarrow> (s1, Some e)
      | (s1, None) \<Rightarrow>
          (case check_tp_continuation_reentries cfg env s1 of
             (s2, Some e) \<Rightarrow> (s2, Some e)
           | (s2, None) \<Rightarrow> check_exit_continuation_reentries cfg env s2))"

text \<open>
  The registration functions return nothing in the source; the model returns, beside the
  state, which of the three exits was taken: the early \<^verbatim>\<open>return\<close> after a warning
  (\<open>Rejected\<close>), an exception caught by the \<^verbatim>\<open>except\<close> clauses (\<open>Failed\<close>), or the end of
  the \<^verbatim>\<open>try\<close> body (\<open>Registered\<close>).
\<close>

datatype registration = Registered | Rejected | Failed error

definition register_sl_hunt ::
    "config \<Rightarrow> trade \<Rightarrow> string \<Rightarrow> monitor_state \<Rightarrow> registration \<times> monitor_state" where
  "register_sl_hunt cfg t logic s =
     (case chain_id t of
        None \<Rightarrow> (Rejected, s)
      | Some cid \<Rightarrow>
          if cid = [] then (Rejected, s)
          else if sl t = 0 then (Rejected, s)
          else
            (case symbol_config cfg (symbol t) of
               None \<Rightarrow> (Failed (KeyError (symbol t)), s)
             | Some sc \<Rightarrow>
                 (let offset_pips = sl_hunt_offset_pips (re_entry_config cfg);
                      pip_sz = pip_size sc;
                      target = (if direction t = ''buy'' then sl t + offset_pips * pip_sz
                                else sl t - offset_pips * pip_sz)
                  in (Registered,
                      s\<lparr>sl_hunt_pending :=
                          AList.update (symbol t)
                            \<lparr>target_price = target, sh_direction = direction t,
                             sh_chain_id = cid, sl_price = sl t, sh_logic = logic\<rparr>
                            (sl_hunt_pending s),
                        monitored_symbols := insert (symbol t) (monitored_symbols s)\<rparr>))))"

definition register_tp_continuation ::
    "trade \<Rightarrow> real \<Rightarrow> string \<Rightarrow> monitor_state \<Rightarrow> registration \<times> monitor_state" where
  "register_tp_continuation t tp_p logic s =
     (case chain_id t of
        None \<Rightarrow> (Rejected, s)
      | Some cid \<Rightarrow>
          if cid = [] then (Rejected, s)
          else if tp_p = 0 then (Rejected, s)
          else
            (Registered,
             s\<lparr>tp_continuation_pending :=
                 AList.update (symbol t)
                   \<lparr>tp_price = tp_p, tc_direction = direction t, tc_chain_id = cid,
                    tc_logic = logic\<rparr>
                   (tp_continuation_pending s),
               monitored_symbols := insert (symbol t) (monitored_symbols s)\<rparr>))"

definition register_exit_continuation ::
    "trade \<Rightarrow> real \<Rightarrow> string \<Rightarrow> string \<Rightarrow> string \<Rightarrow> monitor_state \<Rightarrow> registration \<times> monitor_state" where
  "register_exit_continuation t exit_p reason logic tf s =
     (if exit_p = 0 then (Rejected, s)
      else
        (Registered,
         s\<lparr>exit_continuation_pending :=
             AList.update (symbol t)
               \<lparr>exit_price = exit_p, ec_direction = direction t, ec_logic = logic,
                exit_reason = reason, timeframe = tf\<rparr>
               (exit_continuation_pending s),
           monitored_symbols := insert (symbol t) (monitored_symbols s)\<rparr>))"

definition stop_tp_continuation :: "string \<Rightarrow> monitor_state \<Rightarrow> monitor_state" where
  "stop_tp_continuation sy s =
     (if map_of (tp_continuation_pending s) sy \<noteq> None
      then s\<lparr>tp_continuation_pending := AList.delete sy (tp_continuation_pending s)\<rparr>
      else s)"

definition stop_exit_continuation :: "string \<Rightarrow> monitor_state \<Rightarrow> monitor_state" where
  "stop_exit_continuation sy s =
     (if map_of (exit_continuation_pending s) sy \<noteq> None
      then s\<lparr>exit_continuation_pending := AList.delete sy (exit_continuation_pending s)\<rparr>
      else s)"

section \<open>A chain store and a concrete scenario\<close>

text \<open>
  Modelled from the spec: \<^verbatim>\<open>ReentryManager.update_chain_level\<close> is not among the embedded
  files. The spec's Chain State Store says that advancing a chain fails, as a no-op, if the
  chain is unknown or already at its maximum level, and that a chain is otherwise advanced by
  exactly one level per re-entry. The theorems below hold for every implementation of
  \<open>update_chain_level\<close>; this one instantiates the concrete scenarios.
\<close>

definition advance_level ::
    "(string \<rightharpoonup> reentry_chain) \<Rightarrow> string \<Rightarrow> int option \<Rightarrow> (string \<rightharpoonup> reentry_chain)" where
  "advance_level store cid tid =
     (case store cid of
        None \<Rightarrow> store
      | Some ch \<Rightarrow>
          if current_level ch \<ge> max_level ch then store
          else store(cid \<mapsto> ch\<lparr>current_level := current_level ch + 1\<rparr>))"

text \<open>
  The scenario of the spec: one symbol, SL-hunt offset of 1 pip, continuation gap of 2 pips,
  a chain at level 1 of 3, and one pending entry of each kind (a buy SL hunt at stop-loss
  1900.00 registered with a pip size of 0.01, a sell TP continuation and a sell exit
  continuation at 1950.00).
\<close>

definition scenario_config :: "bool option \<Rightarrow> real \<Rightarrow> config" where
  "scenario_config simulate pip =
     \<lparr>re_entry_config =
        \<lparr>sl_hunt_reentry_enabled = True, tp_reentry_enabled = True,
         exit_continuation_enabled = None, sl_hunt_offset_pips = 1,
         tp_continuation_price_gap_pips = 2, sl_reduction_per_level = 1 / 2\<rparr>,
      symbol_config = [''XAUUSD'' \<mapsto> \<lparr>pip_size = pip, pip_value_per_std_lot = 1\<rparr>],
      simulate_orders = simulate,
      rr_ratio = 3 / 2\<rparr>"

definition scenario_env :: "real \<Rightarrow> alignment \<Rightarrow> int option \<Rightarrow> collaborators" where
  "scenario_env price al ticket =
     \<lparr>symbol_info_tick = (\<lambda>sy. Some \<lparr>ask = price, bid = price\<rparr>),
      check_logic_alignment = (\<lambda>sy logic. al),
      get_account_balance = 10000,
      get_fixed_lot_size = (\<lambda>balance. 1 / 20),
      pip_calculate_sl_price =
        (\<lambda>sy price dir lot balance adj.
           (if dir = ''buy'' then price - 10 * adj else price + 10 * adj, 10 * adj)),
      pip_calculate_tp_price = (\<lambda>price sl_p dir rr. price + rr * (price - sl_p)),
      place_order = (\<lambda>ord. ticket),
      update_chain_level = advance_level\<rparr>"

definition scenario_chain :: reentry_chain where
  "scenario_chain = \<lparr>current_level = 1, max_level = 3, total_profit = 0\<rparr>"

definition scenario_sl_hunt :: sl_hunt_entry where
  "scenario_sl_hunt =
     \<lparr>target_price = 190001 / 100, sh_direction = ''buy'', sh_chain_id = ''chain1'',
      sl_price = 1900, sh_logic = ''LOGIC1''\<rparr>"

definition scenario_tp_continuation :: tp_continuation_entry where
  "scenario_tp_continuation =
     \<lparr>tp_price = 1950, tc_direction = ''sell'', tc_chain_id = ''chain1'',
      tc_logic = ''LOGIC1''\<rparr>"

definition scenario_exit_continuation :: exit_continuation_entry where
  "scenario_exit_continuation =
     \<lparr>exit_price = 1950, ec_direction = ''sell'', ec_logic = ''LOGIC1'',
      exit_reason = ''REVERSAL'', timeframe = ''15M''\<rparr>"

definition scenario_state :: monitor_state where
  "scenario_state =
     \<lparr>sl_hunt_pending = [(''XAUUSD'', scenario_sl_hunt)],
      tp_continuation_pending = [(''XAUUSD'', scenario_tp_continuation)],
      exit_continuation_pending = [(''XAUUSD'', scenario_exit_continuation)],
      monitored_symbols = {''XAUUSD''},
      active_chains = [''chain1'' \<mapsto> scenario_chain],
      open_trades = [],
      risk_open_trades = [],
      placed_orders = [],
      tp_reentry_events = [],
      sent_messages = [],
      processed_alerts = []\<rparr>"

definition scenario_trade :: "real \<Rightarrow> trade" where
  "scenario_trade stop_loss =
     \<lparr>symbol = ''XAUUSD'', entry = 1910, sl = stop_loss, tp = 1925, lot_size = 1 / 20,
      direction = ''buy'', strategy = ''LOGIC1'', chain_id = Some ''chain1'',
      chain_level = 1, is_re_entry = False, trade_id = Some 7\<rparr>"

text \<open>
  Live trading on that configuration with a pip size of 0.1, a market at 1949.70 (or at
  1949.90) with a bullish aligned trend and a broker that answers ticket 42; and the scenario
  state with its chain already at the maximum level.
\<close>

definition live_config :: config where
  "live_config = scenario_config (Some False) (1 / 10)"

definition live_env :: collaborators where
  "live_env =
     scenario_env (19497 / 10) \<lparr>aligned = True, al_direction = ''BULLISH''\<rparr> (Some 42)"


definition exhausted_state :: monitor_state where
  "exhausted_state =
     scenario_state\<lparr>active_chains :=
       [''chain1'' \<mapsto> \<lparr>current_level = 3, max_level = 3, total_profit = 0\<rparr>]\<rparr>"

text \<open>
  Variations of the scenario: a broker that refuses every order, a trend that is not aligned,
  and a state without pending entries.
\<close>

definition failing_broker_env :: collaborators where
  "failing_broker_env =
     scenario_env (19497 / 10) \<lparr>aligned = True, al_direction = ''BULLISH''\<rparr> None"

definition misaligned_env :: collaborators where
  "misaligned_env =
     scenario_env (19497 / 10) \<lparr>aligned = False, al_direction = ''BEARISH''\<rparr> (Some 42)"

definition no_pending_state :: monitor_state where
  "no_pending_state =
     scenario_state\<lparr>sl_hunt_pending := [], tp_continuation_pending := [],
       exit_continuation_pending := []\<rparr>"

text \<open>The configuration of the scenario with a pip size of 0.01, as the calculator reads it.\<close>

definition profit_booking_config :: config where
  "profit_booking_config = scenario_config (Some False) (1 / 100)"

section \<open>One iteration of a trigger check\<close>

lemma price_available_live:
  "get_current_price cfg env sy dir = Some cp \<Longrightarrow> simulate_orders cfg = Some False"
  by (auto simp: get_current_price_def split: option.splits if_splits)

lemma execute_sl_hunt_reentry_returns:
  assumes "simulate_orders cfg = Some b"
  shows "\<exists>s'. execute_sl_hunt_reentry cfg env sy dir price cid logic s = Inr s'"
  using assms
  by (simp add: execute_sl_hunt_reentry_def Let_def split: option.splits prod.splits)

lemma execute_tp_continuation_reentry_returns:
  assumes "simulate_orders cfg = Some b"
  shows "\<exists>s'. execute_tp_continuation_reentry cfg env sy dir price cid logic s = Inr s'"
  using assms
  by (simp add: execute_tp_continuation_reentry_def Let_def split: option.splits prod.splits)

lemma execute_sl_hunt_reentry_pending:
  assumes "execute_sl_hunt_reentry cfg env sy dir price cid logic s = Inr s'"
  shows "sl_hunt_pending s' = sl_hunt_pending s
       \<and> tp_continuation_pending s' = tp_continuation_pending s
       \<and> exit_continuation_pending s' = exit_continuation_pending s"
  using assms
  by (auto simp: execute_sl_hunt_reentry_def Let_def split: option.splits prod.splits if_splits)

lemma execute_tp_continuation_reentry_pending:
  assumes "execute_tp_continuation_reentry cfg env sy dir price cid logic s = Inr s'"
  shows "sl_hunt_pending s' = sl_hunt_pending s
       \<and> tp_continuation_pending s' = tp_continuation_pending s
       \<and> exit_continuation_pending s' = exit_continuation_pending s"
  using assms
  by (auto simp: execute_tp_continuation_reentry_def Let_def split: option.splits prod.splits if_splits)

lemma map_of_delete_same: "map_of (AList.delete k al) k = None"
  by (simp add: delete_conv)

lemma sl_hunt_step_fired:
  assumes p: "map_of (sl_hunt_pending s) sy = Some p"
    and cp: "get_current_price cfg env sy (sh_direction p) = Some cp"
    and r: "price_reached (sh_direction p) cp (target_price p)"
  shows "\<exists>s'. sl_hunt_step cfg env sy s = Inr s' \<and> map_of (sl_hunt_pending s') sy = None"
proof -
  have live: "simulate_orders cfg = Some False" using cp by (rule price_available_live)
  obtain s1 where s1: "execute_sl_hunt_reentry cfg env sy (sh_direction p) cp (sh_chain_id p) (sh_logic p) s = Inr s1"
    using execute_sl_hunt_reentry_returns [OF live] by blast
  show ?thesis using p cp r s1
    by (simp add: sl_hunt_step_def Let_def map_of_delete_same)
qed


lemma tp_continuation_step_fired:
  assumes p: "map_of (tp_continuation_pending s) sy = Some p"
    and cp: "get_current_price cfg env sy (tc_direction p) = Some cp"
    and sc: "symbol_config cfg sy = Some sc" and nz: "pip_size sc \<noteq> 0"
    and r: "price_reached (tc_direction p) cp
              (gap_target_price (tp_continuation_price_gap_pips (re_entry_config cfg))
                 (pip_size sc) (tc_direction p) (tp_price p))"
  shows "\<exists>s'. tp_continuation_step cfg env sy s = Inr s'
             \<and> map_of (tp_continuation_pending s') sy = None"
proof -
  have live: "simulate_orders cfg = Some False" using cp by (rule price_available_live)
  obtain s1 where s1: "execute_tp_continuation_reentry cfg env sy (tc_direction p) cp (tc_chain_id p) (tc_logic p) s = Inr s1"
    using execute_tp_continuation_reentry_returns [OF live] by blast
  show ?thesis using p cp sc nz r s1
    by (simp add: tp_continuation_step_def Let_def map_of_delete_same)
qed


lemma exit_continuation_step_fired:
  assumes p: "map_of (exit_continuation_pending s) sy = Some p"
    and cp: "get_current_price cfg env sy (ec_direction p) = Some cp"
    and sc: "symbol_config cfg sy = Some sc" and nz: "pip_size sc \<noteq> 0"
    and r: "price_reached (ec_direction p) cp
              (gap_target_price (tp_continuation_price_gap_pips (re_entry_config cfg))
                 (pip_size sc) (ec_direction p) (exit_price p))"
  shows "\<exists>s'. exit_continuation_step cfg env sy s = Inr s'
             \<and> map_of (exit_continuation_pending s') sy = None"
  using assms by (simp add: exit_continuation_step_def Let_def map_of_delete_same)


text \<open>
  Claim C1. For each of the three kinds: when the symbol has a pending entry, the price is
  available and the fire condition is reached, the iteration returns (it does not raise) and
  the symbol has no pending entry of that kind afterwards, whichever way the decision went
  (alignment failed, direction mismatch, chain missing or exhausted, or re-entry executed).
  For the two gap checks the symbol must have a configuration with a non-zero pip size, or
  the iteration raises before the gap is tested.
\<close>

theorem pending_trigger_consumed_on_fire:
  "(map_of (sl_hunt_pending s) sy = Some p1 \<longrightarrow>
    get_current_price cfg env sy (sh_direction p1) = Some cp \<longrightarrow>
    price_reached (sh_direction p1) cp (target_price p1) \<longrightarrow>
    (\<exists>s'. sl_hunt_step cfg env sy s = Inr s' \<and> map_of (sl_hunt_pending s') sy = None))
 \<and> (map_of (tp_continuation_pending s) sy = Some p2 \<longrightarrow>
    get_current_price cfg env sy (tc_direction p2) = Some cp \<longrightarrow>
    symbol_config cfg sy = Some sc \<longrightarrow> pip_size sc \<noteq> 0 \<longrightarrow>
    price_reached (tc_direction p2) cp
      (gap_target_price (tp_continuation_price_gap_pips (re_entry_config cfg))
         (pip_size sc) (tc_direction p2) (tp_price p2)) \<longrightarrow>
    (\<exists>s'. tp_continuation_step cfg env sy s = Inr s'
          \<and> map_of (tp_continuation_pending s') sy = None))
 \<and> (map_of (exit_continuation_pending s) sy = Some p3 \<longrightarrow>
    get_current_price cfg env sy (ec_direction p3) = Some cp \<longrightarrow>
    symbol_config cfg sy = Some sc \<longrightarrow> pip_size sc \<noteq> 0 \<longrightarrow>
    price_reached (ec_direction p3) cp
      (gap_target_price (tp_continuation_price_gap_pips (re_entry_config cfg))
         (pip_size sc) (ec_direction p3) (exit_price p3)) \<longrightarrow>
    (\<exists>s'. exit_continuation_step cfg env sy s = Inr s'
          \<and> map_of (exit_continuation_pending s') sy = None))"
  by (intro conjI impI, erule (2) sl_hunt_step_fired, erule (4) tp_continuation_step_fired,
      erule (4) exit_continuation_step_fired)

theorem pending_trigger_consumed_on_fire_witness:
  "(\<exists>s'. sl_hunt_step live_config live_env ''XAUUSD'' scenario_state = Inr s'
         \<and> map_of (sl_hunt_pending s') ''XAUUSD'' = None)
 \<and> (\<exists>s'. tp_continuation_step live_config live_env ''XAUUSD'' scenario_state = Inr s'
         \<and> map_of (tp_continuation_pending s') ''XAUUSD'' = None)
 \<and> (\<exists>s'. exit_continuation_step live_config live_env ''XAUUSD'' scenario_state = Inr s'
         \<and> map_of (exit_continuation_pending s') ''XAUUSD'' = None)"
proof -
  have a1: "map_of (sl_hunt_pending scenario_state) ''XAUUSD'' = Some scenario_sl_hunt"
    by (simp add: scenario_state_def)
  have a2: "map_of (tp_continuation_pending scenario_state) ''XAUUSD'' = Some scenario_tp_continuation"
    by (simp add: scenario_state_def)
  have a3: "map_of (exit_continuation_pending scenario_state) ''XAUUSD'' = Some scenario_exit_continuation"
    by (simp add: scenario_state_def)
  have pr: "get_current_price live_config live_env ''XAUUSD'' d = Some (19497 / 10)" for d
    by (simp add: get_current_price_def live_config_def live_env_def scenario_config_def scenario_env_def)
  have sc: "symbol_config live_config ''XAUUSD'' = Some \<lparr>pip_size = 1 / 10, pip_value_per_std_lot = 1\<rparr>"
    by (simp add: live_config_def scenario_config_def)
  have r1: "price_reached (sh_direction scenario_sl_hunt) (19497 / 10) (target_price scenario_sl_hunt)"
    by (simp add: price_reached_def scenario_sl_hunt_def)
  have r2: "price_reached (tc_direction scenario_tp_continuation) (19497 / 10)
      (gap_target_price (tp_continuation_price_gap_pips (re_entry_config live_config))
         (1 / 10) (tc_direction scenario_tp_continuation) (tp_price scenario_tp_continuation))"
    by (simp add: price_reached_def gap_target_price_def scenario_tp_continuation_def live_config_def scenario_config_def)
  have r3: "price_reached (ec_direction scenario_exit_continuation) (19497 / 10)
      (gap_target_price (tp_continuation_price_gap_pips (re_entry_config live_config))
         (1 / 10) (ec_direction scenario_exit_continuation) (exit_price scenario_exit_continuation))"
    by (simp add: price_reached_def gap_target_price_def scenario_exit_continuation_def live_config_def scenario_config_def)
  show ?thesis
    using pending_trigger_consumed_on_fire [of scenario_state "''XAUUSD''" scenario_sl_hunt live_config live_env
        "19497 / 10" scenario_tp_continuation "\<lparr>pip_size = 1 / 10, pip_value_per_std_lot = 1\<rparr>"
        scenario_exit_continuation]
      a1 a2 a3 pr sc r1 r2 r3
    by simp
qed




section \<open>The fire condition\<close>



section \<open>The level guard of the execution routines\<close>

lemma execute_sl_hunt_reentry_guard:
  assumes "active_chains s cid = None
         \<or> (\<exists>ch. active_chains s cid = Some ch \<and> max_level ch \<le> current_level ch)"
  shows "execute_sl_hunt_reentry cfg env sy dir price cid logic s = Inr s"
  using assms by (auto simp: execute_sl_hunt_reentry_def)

lemma execute_tp_continuation_reentry_guard:
  assumes "active_chains s cid = None
         \<or> (\<exists>ch. active_chains s cid = Some ch \<and> max_level ch \<le> current_level ch)"
  shows "execute_tp_continuation_reentry cfg env sy dir price cid logic s = Inr s"
  using assms by (auto simp: execute_tp_continuation_reentry_def)

lemma execute_sl_hunt_reentry_level:
  assumes ch: "active_chains s cid = Some ch" and lvl: "current_level ch < max_level ch"
    and sim: "simulate_orders cfg = Some b"
  shows "\<exists>s' t. execute_sl_hunt_reentry cfg env sy dir price cid logic s = Inr s'
           \<and> open_trades s' = open_trades s @ [t]
           \<and> chain_level t = current_level ch + 1 \<and> chain_level t \<le> max_level ch"
  using assms
  by (auto simp: execute_sl_hunt_reentry_def Let_def split: prod.splits)

lemma execute_tp_continuation_reentry_level:
  assumes ch: "active_chains s cid = Some ch" and lvl: "current_level ch < max_level ch"
    and sim: "simulate_orders cfg = Some b"
  shows "\<exists>s' t. execute_tp_continuation_reentry cfg env sy dir price cid logic s = Inr s'
           \<and> open_trades s' = open_trades s @ [t]
           \<and> chain_level t = current_level ch + 1 \<and> chain_level t \<le> max_level ch"
  using assms
  by (auto simp: execute_tp_continuation_reentry_def Let_def split: prod.splits)

lemma sl_hunt_step_dropped:
  assumes p: "map_of (sl_hunt_pending s) sy = Some p"
    and cp: "get_current_price cfg env sy (sh_direction p) = Some cp"
    and r: "price_reached (sh_direction p) cp (target_price p)"
    and g: "active_chains s (sh_chain_id p) = None
         \<or> (\<exists>ch. active_chains s (sh_chain_id p) = Some ch \<and> max_level ch \<le> current_level ch)"
  shows "sl_hunt_step cfg env sy s = Inr (s\<lparr>sl_hunt_pending := AList.delete sy (sl_hunt_pending s)\<rparr>)"
  using p cp r execute_sl_hunt_reentry_guard [OF g]
  by (simp add: sl_hunt_step_def Let_def)

lemma tp_continuation_step_dropped:
  assumes p: "map_of (tp_continuation_pending s) sy = Some p"
    and cp: "get_current_price cfg env sy (tc_direction p) = Some cp"
    and sc: "symbol_config cfg sy = Some sc" and nz: "pip_size sc \<noteq> 0"
    and r: "price_reached (tc_direction p) cp
              (gap_target_price (tp_continuation_price_gap_pips (re_entry_config cfg))
                 (pip_size sc) (tc_direction p) (tp_price p))"
    and g: "active_chains s (tc_chain_id p) = None
         \<or> (\<exists>ch. active_chains s (tc_chain_id p) = Some ch \<and> max_level ch \<le> current_level ch)"
  shows "tp_continuation_step cfg env sy s
           = Inr (s\<lparr>tp_continuation_pending := AList.delete sy (tp_continuation_pending s)\<rparr>)"
  using p cp sc nz r execute_tp_continuation_reentry_guard [OF g]
  by (simp add: tp_continuation_step_def Let_def)

text \<open>
  Claim C3. Both execution routines return the state unchanged (no order, no chain update,
  no trade) when the chain is missing or has \<open>current_level \<ge> max_level\<close>; otherwise they
  return with one new trade appended whose level is \<open>current_level + 1 \<le> max_level\<close>. An
  iteration whose trigger fired on such a missing or exhausted chain only deletes the entry.
\<close>

theorem reentry_level_bounded:
  "((active_chains s cid = None
      \<or> (\<exists>ch. active_chains s cid = Some ch \<and> max_level ch \<le> current_level ch)) \<longrightarrow>
     execute_sl_hunt_reentry cfg env sy dir price cid logic s = Inr s
     \<and> execute_tp_continuation_reentry cfg env sy dir price cid logic s = Inr s)
 \<and> (active_chains s cid = Some ch \<longrightarrow> current_level ch < max_level ch \<longrightarrow>
     simulate_orders cfg = Some b \<longrightarrow>
     (\<exists>s' t. execute_sl_hunt_reentry cfg env sy dir price cid logic s = Inr s'
        \<and> open_trades s' = open_trades s @ [t]
        \<and> chain_level t = current_level ch + 1 \<and> chain_level t \<le> max_level ch)
     \<and> (\<exists>s' t. execute_tp_continuation_reentry cfg env sy dir price cid logic s = Inr s'
        \<and> open_trades s' = open_trades s @ [t]
        \<and> chain_level t = current_level ch + 1 \<and> chain_level t \<le> max_level ch))
 \<and> (map_of (sl_hunt_pending s) sy = Some p1 \<longrightarrow>
     get_current_price cfg env sy (sh_direction p1) = Some cp \<longrightarrow>
     price_reached (sh_direction p1) cp (target_price p1) \<longrightarrow>
     (active_chains s (sh_chain_id p1) = None
        \<or> (\<exists>ch. active_chains s (sh_chain_id p1) = Some ch
                 \<and> max_level ch \<le> current_level ch)) \<longrightarrow>
     sl_hunt_step cfg env sy s
       = Inr (s\<lparr>sl_hunt_pending := AList.delete sy (sl_hunt_pending s)\<rparr>))
 \<and> (map_of (tp_continuation_pending s) sy = Some p2 \<longrightarrow>
     get_current_price cfg env sy (tc_direction p2) = Some cp \<longrightarrow>
     symbol_config cfg sy = Some sc \<longrightarrow> pip_size sc \<noteq> 0 \<longrightarrow>
     price_reached (tc_direction p2) cp
       (gap_target_price (tp_continuation_price_gap_pips (re_entry_config cfg))
          (pip_size sc) (tc_direction p2) (tp_price p2)) \<longrightarrow>
     (active_chains s (tc_chain_id p2) = None
        \<or> (\<exists>ch. active_chains s (tc_chain_id p2) = Some ch
                 \<and> max_level ch \<le> current_level ch)) \<longrightarrow>
     tp_continuation_step cfg env sy s
       = Inr (s\<lparr>tp_continuation_pending := AList.delete sy (tp_continuation_pending s)\<rparr>))"
proof (intro conjI impI)
  assume g: "active_chains s cid = None
      \<or> (\<exists>ch. active_chains s cid = Some ch \<and> max_level ch \<le> current_level ch)"
  show "execute_sl_hunt_reentry cfg env sy dir price cid logic s = Inr s"
    using g by (rule execute_sl_hunt_reentry_guard)
  show "execute_tp_continuation_reentry cfg env sy dir price cid logic s = Inr s"
    using g by (rule execute_tp_continuation_reentry_guard)
next
  assume a: "active_chains s cid = Some ch" "current_level ch < max_level ch"
    "simulate_orders cfg = Some b"
  show "\<exists>s' t. execute_sl_hunt_reentry cfg env sy dir price cid logic s = Inr s'
        \<and> open_trades s' = open_trades s @ [t]
        \<and> chain_level t = current_level ch + 1 \<and> chain_level t \<le> max_level ch"
    using a by (rule execute_sl_hunt_reentry_level)
  show "\<exists>s' t. execute_tp_continuation_reentry cfg env sy dir price cid logic s = Inr s'
        \<and> open_trades s' = open_trades s @ [t]
        \<and> chain_level t = current_level ch + 1 \<and> chain_level t \<le> max_level ch"
    using a by (rule execute_tp_continuation_reentry_level)
next
  assume "map_of (sl_hunt_pending s) sy = Some p1"
    "get_current_price cfg env sy (sh_direction p1) = Some cp"
    "price_reached (sh_direction p1) cp (target_price p1)"
    "active_chains s (sh_chain_id p1) = None
        \<or> (\<exists>ch. active_chains s (sh_chain_id p1) = Some ch
                 \<and> max_level ch \<le> current_level ch)"
  then show "sl_hunt_step cfg env sy s
       = Inr (s\<lparr>sl_hunt_pending := AList.delete sy (sl_hunt_pending s)\<rparr>)"
    by (rule sl_hunt_step_dropped)
next
  assume "map_of (tp_continuation_pending s) sy = Some p2"
     "get_current_price cfg env sy (tc_direction p2) = Some cp"
     "symbol_config cfg sy = Some sc" "pip_size sc \<noteq> 0"
     "price_reached (tc_direction p2) cp
       (gap_target_price (tp_continuation_price_gap_pips (re_entry_config cfg))
          (pip_size sc) (tc_direction p2) (tp_price p2))"
     "active_chains s (tc_chain_id p2) = None
        \<or> (\<exists>ch. active_chains s (tc_chain_id p2) = Some ch
                 \<and> max_level ch \<le> current_level ch)"
  then show "tp_continuation_step cfg env sy s
       = Inr (s\<lparr>tp_continuation_pending := AList.delete sy (tp_continuation_pending s)\<rparr>)"
    by (rule tp_continuation_step_dropped)
qed

theorem reentry_level_bounded_witness:
  "execute_sl_hunt_reentry live_config live_env ''XAUUSD'' ''buy'' (19497 / 10) ''chain1'' ''LOGIC1''
      exhausted_state = Inr exhausted_state
 \<and> execute_tp_continuation_reentry live_config live_env ''XAUUSD'' ''sell'' (19497 / 10) ''chain1''
      ''LOGIC1'' exhausted_state = Inr exhausted_state
 \<and> (\<exists>s' t. execute_sl_hunt_reentry live_config live_env ''XAUUSD'' ''buy'' (19497 / 10) ''chain1''
              ''LOGIC1'' scenario_state = Inr s'
        \<and> open_trades s' = [t] \<and> chain_level t = 2 \<and> chain_level t \<le> 3)
 \<and> (\<exists>s' t. execute_tp_continuation_reentry live_config live_env ''XAUUSD'' ''sell'' (19497 / 10)
              ''chain1'' ''LOGIC1'' scenario_state = Inr s'
        \<and> open_trades s' = [t] \<and> chain_level t = 2 \<and> chain_level t \<le> 3)
 \<and> sl_hunt_step live_config live_env ''XAUUSD'' exhausted_state
      = Inr (exhausted_state\<lparr>sl_hunt_pending := []\<rparr>)
 \<and> tp_continuation_step live_config live_env ''XAUUSD'' exhausted_state
      = Inr (exhausted_state\<lparr>tp_continuation_pending := []\<rparr>)"
proof -
  let ?sc = "\<lparr>pip_size = 1 / 10, pip_value_per_std_lot = 1\<rparr> :: symbol_config_entry"
  let ?ex = "\<lparr>current_level = 3, max_level = 3, total_profit = 0\<rparr> :: reentry_chain"
  have ex: "active_chains exhausted_state ''chain1'' = Some ?ex"
    by (simp add: exhausted_state_def)
  have g: "active_chains exhausted_state ''chain1'' = None
      \<or> (\<exists>ch. active_chains exhausted_state ''chain1'' = Some ch
               \<and> max_level ch \<le> current_level ch)"
    using ex by simp
  have ch: "active_chains scenario_state ''chain1'' = Some scenario_chain"
    by (simp add: scenario_state_def)
  have lvl: "current_level scenario_chain = 1" "max_level scenario_chain = 3"
    by (simp_all add: scenario_chain_def)
  have sim: "simulate_orders live_config = Some False" by (simp add: live_config_def scenario_config_def)
  have ot: "open_trades scenario_state = []" by (simp add: scenario_state_def)
  have a1: "map_of (sl_hunt_pending exhausted_state) ''XAUUSD'' = Some scenario_sl_hunt"
       "AList.delete ''XAUUSD'' (sl_hunt_pending exhausted_state) = []"
    by (simp_all add: exhausted_state_def scenario_state_def)
  have a2: "map_of (tp_continuation_pending exhausted_state) ''XAUUSD'' = Some scenario_tp_continuation"
       "AList.delete ''XAUUSD'' (tp_continuation_pending exhausted_state) = []"
    by (simp_all add: exhausted_state_def scenario_state_def)
  have pr: "get_current_price live_config live_env ''XAUUSD'' d = Some (19497 / 10)" for d
    by (simp add: get_current_price_def live_config_def live_env_def scenario_config_def scenario_env_def)
  have sc: "symbol_config live_config ''XAUUSD'' = Some ?sc"
    by (simp add: live_config_def scenario_config_def)
  have r1: "price_reached (sh_direction scenario_sl_hunt) (19497 / 10) (target_price scenario_sl_hunt)"
    by (simp add: price_reached_def scenario_sl_hunt_def)
  have r2: "price_reached (tc_direction scenario_tp_continuation) (19497 / 10)
      (gap_target_price (tp_continuation_price_gap_pips (re_entry_config live_config))
         (1 / 10) (tc_direction scenario_tp_continuation) (tp_price scenario_tp_continuation))"
    by (simp add: price_reached_def gap_target_price_def scenario_tp_continuation_def live_config_def scenario_config_def)
  have c1: "sh_chain_id scenario_sl_hunt = ''chain1''" by (simp add: scenario_sl_hunt_def)
  have c2: "tc_chain_id scenario_tp_continuation = ''chain1''"
    by (simp add: scenario_tp_continuation_def)
  have w1: "execute_sl_hunt_reentry live_config live_env ''XAUUSD'' ''buy'' (19497 / 10) ''chain1'' ''LOGIC1''
      exhausted_state = Inr exhausted_state
     \<and> execute_tp_continuation_reentry live_config live_env ''XAUUSD'' ''sell'' (19497 / 10) ''chain1''
      ''LOGIC1'' exhausted_state = Inr exhausted_state"
    using reentry_level_bounded [of exhausted_state "''chain1''" live_config live_env "''XAUUSD''" "''buy''"
        "19497 / 10" "''LOGIC1''"] 
     reentry_level_bounded [of exhausted_state "''chain1''" live_config live_env "''XAUUSD''" "''sell''"
        "19497 / 10" "''LOGIC1''"] g by blast
  have w2: "(\<exists>s' t. execute_sl_hunt_reentry live_config live_env ''XAUUSD'' ''buy'' (19497 / 10) ''chain1''
              ''LOGIC1'' scenario_state = Inr s'
        \<and> open_trades s' = [t] \<and> chain_level t = 2 \<and> chain_level t \<le> 3)"
    using reentry_level_bounded [of scenario_state "''chain1''" live_config live_env "''XAUUSD''" "''buy''"
        "19497 / 10" "''LOGIC1''" scenario_chain False, THEN conjunct2, THEN conjunct1]
      ch lvl sim ot by (simp add: numeral_2_eq_2)
  have w3: "(\<exists>s' t. execute_tp_continuation_reentry live_config live_env ''XAUUSD'' ''sell'' (19497 / 10)
              ''chain1'' ''LOGIC1'' scenario_state = Inr s'
        \<and> open_trades s' = [t] \<and> chain_level t = 2 \<and> chain_level t \<le> 3)"
    using reentry_level_bounded [of scenario_state "''chain1''" live_config live_env "''XAUUSD''" "''sell''"
        "19497 / 10" "''LOGIC1''" scenario_chain False, THEN conjunct2, THEN conjunct1]
      ch lvl sim ot by (simp add: numeral_2_eq_2)
  have w4: "sl_hunt_step live_config live_env ''XAUUSD'' exhausted_state
      = Inr (exhausted_state\<lparr>sl_hunt_pending := []\<rparr>)"
    using reentry_level_bounded [of exhausted_state "''chain1''" live_config live_env "''XAUUSD''" "''buy''"
        "19497 / 10" "''LOGIC1''" scenario_chain False scenario_sl_hunt "19497 / 10"
        scenario_tp_continuation ?sc] a1 pr r1 c1 g by simp
  have w5: "tp_continuation_step live_config live_env ''XAUUSD'' exhausted_state
      = Inr (exhausted_state\<lparr>tp_continuation_pending := []\<rparr>)"
    using reentry_level_bounded [of exhausted_state "''chain1''" live_config live_env "''XAUUSD''" "''buy''"
        "19497 / 10" "''LOGIC1''" scenario_chain False scenario_sl_hunt "19497 / 10"
        scenario_tp_continuation ?sc] a2 pr sc r2 c2 g by simp
  show ?thesis using w1 w2 w3 w4 w5 by simp
qed

section \<open>The stop-loss reduction factor\<close>

lemma execute_sl_hunt_reentry_factor:
  assumes ch: "active_chains s cid = Some ch" and lvl: "current_level ch < max_level ch"
    and sim: "simulate_orders cfg = Some b"
  shows "\<exists>s' t. execute_sl_hunt_reentry cfg env sy dir price cid logic s = Inr s'
           \<and> open_trades s' = open_trades s @ [t]
           \<and> sl t = fst (pip_calculate_sl_price env sy price dir
                          (get_fixed_lot_size env (get_account_balance env))
                          (get_account_balance env)
                          ((1 - sl_reduction_per_level (re_entry_config cfg))
                             ^ current_level ch))"
  using assms
  by (auto simp: execute_sl_hunt_reentry_def sl_adjustment_def Let_def split: prod.splits)

lemma execute_tp_continuation_reentry_factor:
  assumes ch: "active_chains s cid = Some ch" and lvl: "current_level ch < max_level ch"
    and sim: "simulate_orders cfg = Some b"
  shows "\<exists>s' t. execute_tp_continuation_reentry cfg env sy dir price cid logic s = Inr s'
           \<and> open_trades s' = open_trades s @ [t]
           \<and> sl t = fst (pip_calculate_sl_price env sy price dir
                          (get_fixed_lot_size env (get_account_balance env))
                          (get_account_balance env)
                          ((1 - sl_reduction_per_level (re_entry_config cfg))
                             ^ current_level ch))"
  using assms
  by (auto simp: execute_tp_continuation_reentry_def sl_adjustment_def Let_def
        split: prod.splits)

text \<open>
  Claim C5. The adjustment factor at chain level \<open>L\<close> is \<open>(1 - reduction_per_level) ^ L\<close>;
  for a reduction per level in \<open>(0, 1]\<close> it does not increase from one level to the next;
  and it is the factor that both execution routines hand to the position sizer for the
  stop-loss of the trade they open on a chain at level \<open>L\<close>.
\<close>

theorem sl_adjustment_factor:
  "sl_adjustment r L = (1 - r) ^ L
   \<and> (0 < r \<and> r \<le> 1 \<longrightarrow> sl_adjustment r (L + 1) \<le> sl_adjustment r L)
   \<and> (active_chains s cid = Some ch \<longrightarrow> current_level ch < max_level ch \<longrightarrow>
      simulate_orders cfg = Some b \<longrightarrow>
        (\<exists>s' t. execute_sl_hunt_reentry cfg env sy dir price cid logic s = Inr s'
           \<and> open_trades s' = open_trades s @ [t]
           \<and> sl t = fst (pip_calculate_sl_price env sy price dir
                          (get_fixed_lot_size env (get_account_balance env))
                          (get_account_balance env)
                          ((1 - sl_reduction_per_level (re_entry_config cfg))
                             ^ current_level ch)))
      \<and> (\<exists>s' t. execute_tp_continuation_reentry cfg env sy dir price cid logic s = Inr s'
           \<and> open_trades s' = open_trades s @ [t]
           \<and> sl t = fst (pip_calculate_sl_price env sy price dir
                          (get_fixed_lot_size env (get_account_balance env))
                          (get_account_balance env)
                          ((1 - sl_reduction_per_level (re_entry_config cfg))
                             ^ current_level ch))))"
proof (intro conjI impI)
  show "sl_adjustment r L = (1 - r) ^ L" by (simp add: sl_adjustment_def)
next
  assume a: "0 < r \<and> r \<le> 1"
  have nn: "0 \<le> (1 - r) ^ L" using a by simp
  have "(1 - r) ^ (L + 1) = (1 - r) * (1 - r) ^ L" by simp
  also have "\<dots> \<le> 1 * (1 - r) ^ L" using a nn by (intro mult_right_mono) auto
  finally show "sl_adjustment r (L + 1) \<le> sl_adjustment r L" by (simp add: sl_adjustment_def)
next
  assume a: "active_chains s cid = Some ch" "current_level ch < max_level ch"
    "simulate_orders cfg = Some b"
  show "\<exists>s' t. execute_sl_hunt_reentry cfg env sy dir price cid logic s = Inr s'
           \<and> open_trades s' = open_trades s @ [t]
           \<and> sl t = fst (pip_calculate_sl_price env sy price dir
                          (get_fixed_lot_size env (get_account_balance env))
                          (get_account_balance env)
                          ((1 - sl_reduction_per_level (re_entry_config cfg))
                             ^ current_level ch))"
    using a by (rule execute_sl_hunt_reentry_factor)
  show "\<exists>s' t. execute_tp_continuation_reentry cfg env sy dir price cid logic s = Inr s'
           \<and> open_trades s' = open_trades s @ [t]
           \<and> sl t = fst (pip_calculate_sl_price env sy price dir
                          (get_fixed_lot_size env (get_account_balance env))
                          (get_account_balance env)
                          ((1 - sl_reduction_per_level (re_entry_config cfg))
                             ^ current_level ch))"
    using a by (rule execute_tp_continuation_reentry_factor)
qed

theorem sl_adjustment_factor_witness:
  "sl_adjustment (1 / 2) 2 = 1 / 4
   \<and> sl_adjustment (1 / 2) (2 + 1) \<le> sl_adjustment (1 / 2) 2
   \<and> (\<exists>s' t. execute_sl_hunt_reentry live_config live_env ''XAUUSD'' ''buy'' (19497 / 10)
                ''chain1'' ''LOGIC1'' scenario_state = Inr s'
           \<and> open_trades s' = [t] \<and> sl t = 19447 / 10)
   \<and> (\<exists>s' t. execute_tp_continuation_reentry live_config live_env ''XAUUSD'' ''sell''
                (19497 / 10) ''chain1'' ''LOGIC1'' scenario_state = Inr s'
           \<and> open_trades s' = [t] \<and> sl t = 19547 / 10)"
proof -
  have ch: "active_chains scenario_state ''chain1'' = Some scenario_chain"
    by (simp add: scenario_state_def)
  have lvl: "current_level scenario_chain < max_level scenario_chain"
    by (simp add: scenario_chain_def)
  have sim: "simulate_orders live_config = Some False"
    by (simp add: live_config_def scenario_config_def)
  have ot: "open_trades scenario_state = []" by (simp add: scenario_state_def)
  have f: "(1 - sl_reduction_per_level (re_entry_config live_config))
             ^ current_level scenario_chain = 1 / 2"
    by (simp add: live_config_def scenario_config_def scenario_chain_def)
  have b: "fst (pip_calculate_sl_price live_env ''XAUUSD'' (19497 / 10) ''buy'' l a (1 / 2))
             = 19447 / 10" for l a
    by (simp add: live_env_def scenario_env_def)
  have sl: "fst (pip_calculate_sl_price live_env ''XAUUSD'' (19497 / 10) ''sell'' l a (1 / 2))
             = 19547 / 10" for l a
    by (simp add: live_env_def scenario_env_def)
  have w0: "sl_adjustment (1 / 2) 2 = 1 / 4
       \<and> sl_adjustment (1 / 2) (2 + 1) \<le> sl_adjustment (1 / 2) 2"
    using sl_adjustment_factor [of "1 / 2" 2] by (simp add: power2_eq_square)
  have w1: "\<exists>s' t. execute_sl_hunt_reentry live_config live_env ''XAUUSD'' ''buy'' (19497 / 10)
                ''chain1'' ''LOGIC1'' scenario_state = Inr s'
           \<and> open_trades s' = [t] \<and> sl t = 19447 / 10"
    using sl_adjustment_factor [of "1 / 2" 2 scenario_state "''chain1''" scenario_chain
        live_config False live_env "''XAUUSD''" "''buy''" "19497 / 10" "''LOGIC1''",
        THEN conjunct2, THEN conjunct2, rule_format, OF ch lvl sim, THEN conjunct1]
    unfolding f b ot by simp
  have w2: "\<exists>s' t. execute_tp_continuation_reentry live_config live_env ''XAUUSD'' ''sell''
                (19497 / 10) ''chain1'' ''LOGIC1'' scenario_state = Inr s'
           \<and> open_trades s' = [t] \<and> sl t = 19547 / 10"
    using sl_adjustment_factor [of "1 / 2" 2 scenario_state "''chain1''" scenario_chain
        live_config False live_env "''XAUUSD''" "''sell''" "19497 / 10" "''LOGIC1''",
        THEN conjunct2, THEN conjunct2, rule_format, OF ch lvl sim, THEN conjunct2]
    unfolding f sl ot by simp
  show ?thesis using w0 w1 w2 by simp
qed

section \<open>A whole pass of a trigger check\<close>

text \<open>
  The iterations for the other symbols of a pass neither restore nor replace an entry: after a
  pass that ends without an exception, a symbol whose trigger fired has no pending entry.
\<close>

lemma for_each_keeps_absent:
  assumes absent: "\<And>k s s'. body k s = Inr s' \<Longrightarrow> map_of (pend s) x = None
                     \<Longrightarrow> map_of (pend s') x = None"
    and none: "map_of (pend s) x = None"
  shows "map_of (pend (fst (for_each body ks s))) x = None"
  using none
proof (induction ks arbitrary: s)
  case Nil
  then show ?case by simp
next
  case (Cons k ks)
  show ?case
  proof (cases "body k s")
    case (Inl e)
    then show ?thesis using Cons.prems by simp
  next
    case (Inr s1)
    have "map_of (pend s1) x = None" using Inr Cons.prems by (rule absent)
    then have "map_of (pend (fst (for_each body ks s1))) x = None" by (rule Cons.IH)
    then show ?thesis using Inr by simp
  qed
qed

lemma for_each_consumes:
  assumes keep: "\<And>k s s'. body k s = Inr s' \<Longrightarrow> k \<noteq> x
                   \<Longrightarrow> map_of (pend s') x = map_of (pend s) x"
    and absent: "\<And>k s s'. body k s = Inr s' \<Longrightarrow> map_of (pend s) x = None
                     \<Longrightarrow> map_of (pend s') x = None"
    and fire: "\<And>s s'. body x s = Inr s' \<Longrightarrow> map_of (pend s) x = Some v
                   \<Longrightarrow> map_of (pend s') x = None"
    and mem: "x \<in> set ks" and some: "map_of (pend s) x = Some v"
    and ok: "snd (for_each body ks s) = None"
  shows "map_of (pend (fst (for_each body ks s))) x = None"
  using mem some ok
proof (induction ks arbitrary: s)
  case Nil
  then show ?case by simp
next
  case (Cons k ks)
  show ?case
  proof (cases "body k s")
    case (Inl e)
    then show ?thesis using Cons.prems by simp
  next
    case (Inr s1)
    show ?thesis
    proof (cases "k = x")
      case True
      have "body x s = Inr s1" using Inr True by simp
      then have "map_of (pend s1) x = None" using Cons.prems(2) by (rule fire)
      then have "map_of (pend (fst (for_each body ks s1))) x = None"
        by (rule for_each_keeps_absent [where pend = pend and body = body, rotated])
           (rule absent)
      then show ?thesis using Inr by simp
    next
      case False
      have "map_of (pend s1) x = map_of (pend s) x" using Inr False by (rule keep)
      then have a: "map_of (pend s1) x = Some v" using Cons.prems(2) by simp
      have b: "x \<in> set ks" using False Cons.prems(1) by auto
      have c: "snd (for_each body ks s1) = None" using Cons.prems(3) Inr by simp
      have "map_of (pend (fst (for_each body ks s1))) x = None" using b a c by (rule Cons.IH)
      then show ?thesis using Inr by simp
    qed
  qed
qed


lemma sl_hunt_step_pending:
  assumes "sl_hunt_step cfg env k s = Inr s'"
  shows "sl_hunt_pending s' = sl_hunt_pending s
       \<or> sl_hunt_pending s' = AList.delete k (sl_hunt_pending s)"
proof -
  have ex: "sl_hunt_pending s1 = sl_hunt_pending s"
    if "execute_sl_hunt_reentry cfg env k d pr c l s = Inr s1" for d pr c l s1
    using execute_sl_hunt_reentry_pending [OF that] by simp
  show ?thesis
    using assms
    by (auto simp: sl_hunt_step_def Let_def ex split: option.splits if_splits sum.splits)
qed

lemma tp_continuation_step_pending:
  assumes "tp_continuation_step cfg env k s = Inr s'"
  shows "tp_continuation_pending s' = tp_continuation_pending s
       \<or> tp_continuation_pending s' = AList.delete k (tp_continuation_pending s)"
proof -
  have ex: "tp_continuation_pending s1 = tp_continuation_pending s"
    if "execute_tp_continuation_reentry cfg env k d pr c l s = Inr s1" for d pr c l s1
    using execute_tp_continuation_reentry_pending [OF that] by simp
  show ?thesis
    using assms
    by (auto simp: tp_continuation_step_def Let_def ex split: option.splits if_splits sum.splits)
qed

lemma exit_continuation_step_pending:
  assumes "exit_continuation_step cfg env k s = Inr s'"
  shows "exit_continuation_pending s' = exit_continuation_pending s
       \<or> exit_continuation_pending s' = AList.delete k (exit_continuation_pending s)"
  using assms
  by (auto simp: exit_continuation_step_def Let_def split: option.splits if_splits)


lemma map_of_key_in: "map_of al k = Some v \<Longrightarrow> k \<in> set (map fst al)"
  by (induction al) (auto split: if_splits)

lemma check_sl_hunt_reentries_consumes:
  assumes p: "map_of (sl_hunt_pending s) sy = Some p"
    and cp: "get_current_price cfg env sy (sh_direction p) = Some cp"
    and r: "price_reached (sh_direction p) cp (target_price p)"
    and ok: "snd (check_sl_hunt_reentries cfg env s) = None"
  shows "sl_hunt_reentry_enabled (re_entry_config cfg) \<longrightarrow>
           map_of (sl_hunt_pending (fst (check_sl_hunt_reentries cfg env s))) sy = None"
proof
  assume en: "sl_hunt_reentry_enabled (re_entry_config cfg)"
  let ?ks = "map fst (sl_hunt_pending s)"
  have ok': "snd (for_each (sl_hunt_step cfg env) ?ks s) = None"
    using ok en by (simp add: check_sl_hunt_reentries_def)
  have "map_of (sl_hunt_pending (fst (for_each (sl_hunt_step cfg env) ?ks s))) sy = None"
  proof (rule for_each_consumes [where pend = sl_hunt_pending and body = "sl_hunt_step cfg env"
          and v = p, OF _ _ _ map_of_key_in [OF p] p ok'])
    fix k s1 s2 assume st: "sl_hunt_step cfg env k s1 = Inr s2"
    { assume "k \<noteq> sy"
      then show "map_of (sl_hunt_pending s2) sy = map_of (sl_hunt_pending s1) sy"
        using sl_hunt_step_pending [OF st] by (auto simp: delete_conv) }
    { assume "map_of (sl_hunt_pending s1) sy = None"
      then show "map_of (sl_hunt_pending s2) sy = None"
        using sl_hunt_step_pending [OF st] by (auto simp: delete_conv) }
  next
    fix s1 s2 assume st: "sl_hunt_step cfg env sy s1 = Inr s2"
      and p1: "map_of (sl_hunt_pending s1) sy = Some p"
    show "map_of (sl_hunt_pending s2) sy = None"
      using sl_hunt_step_fired [OF p1 cp r] st by auto
  qed
  then show "map_of (sl_hunt_pending (fst (check_sl_hunt_reentries cfg env s))) sy = None"
    using en by (simp add: check_sl_hunt_reentries_def)
qed


lemma check_tp_continuation_reentries_consumes:
  assumes p: "map_of (tp_continuation_pending s) sy = Some p"
    and cp: "get_current_price cfg env sy (tc_direction p) = Some cp"
    and sc: "symbol_config cfg sy = Some sc" and nz: "pip_size sc \<noteq> 0"
    and r: "price_reached (tc_direction p) cp
              (gap_target_price (tp_continuation_price_gap_pips (re_entry_config cfg))
                 (pip_size sc) (tc_direction p) (tp_price p))"
    and ok: "snd (check_tp_continuation_reentries cfg env s) = None"
  shows "tp_reentry_enabled (re_entry_config cfg) \<longrightarrow>
           map_of (tp_continuation_pending (fst (check_tp_continuation_reentries cfg env s))) sy = None"
proof
  assume en: "tp_reentry_enabled (re_entry_config cfg)"
  let ?ks = "map fst (tp_continuation_pending s)"
  have ok': "snd (for_each (tp_continuation_step cfg env) ?ks s) = None"
    using ok en by (simp add: check_tp_continuation_reentries_def)
  have "map_of (tp_continuation_pending (fst (for_each (tp_continuation_step cfg env) ?ks s))) sy = None"
  proof (rule for_each_consumes [where pend = tp_continuation_pending and body = "tp_continuation_step cfg env"
          and v = p, OF _ _ _ map_of_key_in [OF p] p ok'])
    fix k s1 s2 assume st: "tp_continuation_step cfg env k s1 = Inr s2"
    { assume "k \<noteq> sy"
      then show "map_of (tp_continuation_pending s2) sy = map_of (tp_continuation_pending s1) sy"
        using tp_continuation_step_pending [OF st] by (auto simp: delete_conv) }
    { assume "map_of (tp_continuation_pending s1) sy = None"
      then show "map_of (tp_continuation_pending s2) sy = None"
        using tp_continuation_step_pending [OF st] by (auto simp: delete_conv) }
  next
    fix s1 s2 assume st: "tp_continuation_step cfg env sy s1 = Inr s2"
      and p1: "map_of (tp_continuation_pending s1) sy = Some p"
    show "map_of (tp_continuation_pending s2) sy = None"
      using tp_continuation_step_fired [OF p1 cp sc nz r] st by auto
  qed
  then show "map_of (tp_continuation_pending (fst (check_tp_continuation_reentries cfg env s))) sy = None"
    using en by (simp add: check_tp_continuation_reentries_def)
qed


lemma check_exit_continuation_reentries_consumes:
  assumes p: "map_of (exit_continuation_pending s) sy = Some p"
    and cp: "get_current_price cfg env sy (ec_direction p) = Some cp"
    and sc: "symbol_config cfg sy = Some sc" and nz: "pip_size sc \<noteq> 0"
    and r: "price_reached (ec_direction p) cp
              (gap_target_price (tp_continuation_price_gap_pips (re_entry_config cfg))
                 (pip_size sc) (ec_direction p) (exit_price p))"
    and ok: "snd (check_exit_continuation_reentries cfg env s) = None"
  shows "(case exit_continuation_enabled (re_entry_config cfg) of None \<Rightarrow> True | Some b \<Rightarrow> b) \<longrightarrow>
           map_of (exit_continuation_pending (fst (check_exit_continuation_reentries cfg env s))) sy = None"
proof
  assume en: "(case exit_continuation_enabled (re_entry_config cfg) of None \<Rightarrow> True | Some b \<Rightarrow> b)"
  let ?ks = "map fst (exit_continuation_pending s)"
  have ok': "snd (for_each (exit_continuation_step cfg env) ?ks s) = None"
    using ok en by (simp add: check_exit_continuation_reentries_def)
  have "map_of (exit_continuation_pending (fst (for_each (exit_continuation_step cfg env) ?ks s))) sy = None"
  proof (rule for_each_consumes [where pend = exit_continuation_pending and body = "exit_continuation_step cfg env"
          and v = p, OF _ _ _ map_of_key_in [OF p] p ok'])
    fix k s1 s2 assume st: "exit_continuation_step cfg env k s1 = Inr s2"
    { assume "k \<noteq> sy"
      then show "map_of (exit_continuation_pending s2) sy = map_of (exit_continuation_pending s1) sy"
        using exit_continuation_step_pending [OF st] by (auto simp: delete_conv) }
    { assume "map_of (exit_continuation_pending s1) sy = None"
      then show "map_of (exit_continuation_pending s2) sy = None"
        using exit_continuation_step_pending [OF st] by (auto simp: delete_conv) }
  next
    fix s1 s2 assume st: "exit_continuation_step cfg env sy s1 = Inr s2"
      and p1: "map_of (exit_continuation_pending s1) sy = Some p"
    show "map_of (exit_continuation_pending s2) sy = None"
      using exit_continuation_step_fired [OF p1 cp sc nz r] st by auto
  qed
  then show "map_of (exit_continuation_pending (fst (check_exit_continuation_reentries cfg env s))) sy = None"
    using en by (simp add: check_exit_continuation_reentries_def)
qed

section \<open>Broker failure\<close>

lemma execute_sl_hunt_reentry_broker_failure:
  assumes live: "simulate_orders cfg = Some False"
    and ch: "active_chains s cid = Some ch" and lvl: "current_level ch < max_level ch"
    and failed: "\<forall>ord. \<not> truthy (place_order env ord)"
  shows "\<exists>s' t ord. execute_sl_hunt_reentry cfg env sy dir price cid logic s = Inr s'
           \<and> placed_orders s' = placed_orders s @ [ord]
           \<and> trade_id t = None \<and> chain_level t = current_level ch + 1
           \<and> active_chains s' = update_chain_level env (active_chains s) cid None
           \<and> open_trades s' = open_trades s @ [t]
           \<and> risk_open_trades s' = risk_open_trades s @ [t]
           \<and> sent_messages s' = sent_messages s @ [SlHuntReentryMessage sy cid]"
  using assms
  by (auto simp: execute_sl_hunt_reentry_def Let_def split: prod.splits)

lemma execute_tp_continuation_reentry_broker_failure:
  assumes live: "simulate_orders cfg = Some False"
    and ch: "active_chains s cid = Some ch" and lvl: "current_level ch < max_level ch"
    and failed: "\<forall>ord. \<not> truthy (place_order env ord)"
  shows "\<exists>s' t ord. execute_tp_continuation_reentry cfg env sy dir price cid logic s = Inr s'
           \<and> placed_orders s' = placed_orders s @ [ord]
           \<and> trade_id t = None \<and> chain_level t = current_level ch + 1
           \<and> active_chains s' = update_chain_level env (active_chains s) cid None
           \<and> open_trades s' = open_trades s @ [t]
           \<and> risk_open_trades s' = risk_open_trades s @ [t]
           \<and> sent_messages s' = sent_messages s @ [TpReentryMessage sy cid]"
  using assms
  by (auto simp: execute_tp_continuation_reentry_def Let_def split: prod.splits)

text \<open>
  Claim C10. In live mode, on a chain below its maximum level, when the broker's answer to
  \<open>place_order\<close> is falsy, each execution routine still returns with the order handed to the
  broker, the chain updated through \<open>update_chain_level\<close> (called with the trade id
  \<open>None\<close>), the new trade, whose \<open>trade_id\<close> is \<open>None\<close>, appended to the open trades of
  the engine and of the risk manager, and the notification sent.
\<close>

theorem broker_failure_keeps_mutations:
  assumes live: "simulate_orders cfg = Some False"
    and ch: "active_chains s cid = Some ch" and lvl: "current_level ch < max_level ch"
    and failed: "\<forall>ord. \<not> truthy (place_order env ord)"
  shows "(\<exists>s' t ord. execute_sl_hunt_reentry cfg env sy dir price cid logic s = Inr s'
           \<and> placed_orders s' = placed_orders s @ [ord]
           \<and> trade_id t = None \<and> chain_level t = current_level ch + 1
           \<and> active_chains s' = update_chain_level env (active_chains s) cid None
           \<and> open_trades s' = open_trades s @ [t]
           \<and> risk_open_trades s' = risk_open_trades s @ [t]
           \<and> sent_messages s' = sent_messages s @ [SlHuntReentryMessage sy cid])
       \<and> (\<exists>s' t ord. execute_tp_continuation_reentry cfg env sy dir price cid logic s = Inr s'
           \<and> placed_orders s' = placed_orders s @ [ord]
           \<and> trade_id t = None \<and> chain_level t = current_level ch + 1
           \<and> active_chains s' = update_chain_level env (active_chains s) cid None
           \<and> open_trades s' = open_trades s @ [t]
           \<and> risk_open_trades s' = risk_open_trades s @ [t]
           \<and> sent_messages s' = sent_messages s @ [TpReentryMessage sy cid])"
  using execute_sl_hunt_reentry_broker_failure [OF assms]
    execute_tp_continuation_reentry_broker_failure [OF assms]
  by (rule conjI)

theorem broker_failure_keeps_mutations_witness:
  "(\<exists>s' t ord. execute_sl_hunt_reentry live_config failing_broker_env ''XAUUSD'' ''buy''
                 (19497 / 10) ''chain1'' ''LOGIC1'' scenario_state = Inr s'
           \<and> placed_orders s' = [ord]
           \<and> trade_id t = None \<and> chain_level t = 2
           \<and> active_chains s' ''chain1''
               = Some \<lparr>current_level = 2, max_level = 3, total_profit = 0\<rparr>
           \<and> open_trades s' = [t]
           \<and> sent_messages s' = [SlHuntReentryMessage ''XAUUSD'' ''chain1''])
 \<and> (\<exists>s' t ord. execute_tp_continuation_reentry live_config failing_broker_env ''XAUUSD''
                 ''sell'' (19497 / 10) ''chain1'' ''LOGIC1'' scenario_state = Inr s'
           \<and> placed_orders s' = [ord]
           \<and> trade_id t = None \<and> chain_level t = 2
           \<and> active_chains s' ''chain1''
               = Some \<lparr>current_level = 2, max_level = 3, total_profit = 0\<rparr>
           \<and> open_trades s' = [t]
           \<and> sent_messages s' = [TpReentryMessage ''XAUUSD'' ''chain1''])"
proof -
  have live: "simulate_orders live_config = Some False"
    by (simp add: live_config_def scenario_config_def)
  have ch: "active_chains scenario_state ''chain1'' = Some scenario_chain"
    by (simp add: scenario_state_def)
  have lvl: "current_level scenario_chain < max_level scenario_chain"
    by (simp add: scenario_chain_def)
  have failed: "\<forall>ord. \<not> truthy (place_order failing_broker_env ord)"
    by (simp add: failing_broker_env_def scenario_env_def truthy_def)
  have adv: "update_chain_level failing_broker_env (active_chains scenario_state) ''chain1'' None
               ''chain1'' = Some \<lparr>current_level = 2, max_level = 3, total_profit = 0\<rparr>"
    by (simp add: failing_broker_env_def scenario_env_def advance_level_def scenario_state_def
          scenario_chain_def)
  have empties: "placed_orders scenario_state = []" "open_trades scenario_state = []"
      "sent_messages scenario_state = []" "current_level scenario_chain + 1 = 2"
    by (simp_all add: scenario_state_def scenario_chain_def)
  from broker_failure_keeps_mutations [OF live ch lvl failed, of "''XAUUSD''" "''buy''"
      "19497 / 10" "''LOGIC1''", THEN conjunct1]
  have w1: "\<exists>s' t ord. execute_sl_hunt_reentry live_config failing_broker_env ''XAUUSD'' ''buy''
                 (19497 / 10) ''chain1'' ''LOGIC1'' scenario_state = Inr s'
           \<and> placed_orders s' = [ord]
           \<and> trade_id t = None \<and> chain_level t = 2
           \<and> active_chains s' ''chain1''
               = Some \<lparr>current_level = 2, max_level = 3, total_profit = 0\<rparr>
           \<and> open_trades s' = [t]
           \<and> sent_messages s' = [SlHuntReentryMessage ''XAUUSD'' ''chain1'']"
    using adv empties by (elim exE conjE, intro exI conjI) simp_all
  from broker_failure_keeps_mutations [OF live ch lvl failed, of "''XAUUSD''" "''sell''"
      "19497 / 10" "''LOGIC1''", THEN conjunct2]
  have w2: "\<exists>s' t ord. execute_tp_continuation_reentry live_config failing_broker_env ''XAUUSD''
                 ''sell'' (19497 / 10) ''chain1'' ''LOGIC1'' scenario_state = Inr s'
           \<and> placed_orders s' = [ord]
           \<and> trade_id t = None \<and> chain_level t = 2
           \<and> active_chains s' ''chain1''
               = Some \<lparr>current_level = 2, max_level = 3, total_profit = 0\<rparr>
           \<and> open_trades s' = [t]
           \<and> sent_messages s' = [TpReentryMessage ''XAUUSD'' ''chain1'']"
    using adv empties by (elim exE conjE, intro exI conjI) simp_all
  show ?thesis using w1 w2 by (rule conjI)
qed

section \<open>Simulation mode\<close>

lemma for_each_unchanged:
  assumes "\<forall>k \<in> set ks. body k s = Inr s"
  shows "for_each body ks s = (s, None)"
  using assms by (induction ks) auto

lemma simulated_price:
  assumes "simulate_orders cfg = None \<or> simulate_orders cfg = Some True"
  shows "get_current_price cfg env sy dir = None"
  using assms by (auto simp: get_current_price_def)

lemma map_of_key: "k \<in> set (map fst al) \<Longrightarrow> \<exists>v. map_of al k = Some v"
  by (induction al) auto

lemma check_sl_hunt_reentries_simulated:
  assumes "simulate_orders cfg = None \<or> simulate_orders cfg = Some True"
  shows "check_sl_hunt_reentries cfg env s = (s, None)"
proof -
  have "sl_hunt_step cfg env k s = Inr s" if kin: "k \<in> set (map fst (sl_hunt_pending s))" for k
  proof -
    obtain v where "map_of (sl_hunt_pending s) k = Some v" using map_of_key [OF kin] by auto
    then show ?thesis by (simp add: sl_hunt_step_def simulated_price [OF assms])
  qed
  then have "for_each (sl_hunt_step cfg env) (map fst (sl_hunt_pending s)) s = (s, None)"
    by (intro for_each_unchanged) blast
  then show ?thesis by (simp add: check_sl_hunt_reentries_def)
qed

lemma check_tp_continuation_reentries_simulated:
  assumes "simulate_orders cfg = None \<or> simulate_orders cfg = Some True"
  shows "check_tp_continuation_reentries cfg env s = (s, None)"
proof -
  have "tp_continuation_step cfg env k s = Inr s"
    if kin: "k \<in> set (map fst (tp_continuation_pending s))" for k
  proof -
    obtain v where "map_of (tp_continuation_pending s) k = Some v"
      using map_of_key [OF kin] by auto
    then show ?thesis by (simp add: tp_continuation_step_def simulated_price [OF assms])
  qed
  then have "for_each (tp_continuation_step cfg env) (map fst (tp_continuation_pending s)) s
               = (s, None)"
    by (intro for_each_unchanged) blast
  then show ?thesis by (simp add: check_tp_continuation_reentries_def)
qed

lemma check_exit_continuation_reentries_simulated:
  assumes "simulate_orders cfg = None \<or> simulate_orders cfg = Some True"
  shows "check_exit_continuation_reentries cfg env s = (s, None)"
proof -
  have "exit_continuation_step cfg env k s = Inr s"
    if kin: "k \<in> set (map fst (exit_continuation_pending s))" for k
  proof -
    obtain v where "map_of (exit_continuation_pending s) k = Some v"
      using map_of_key [OF kin] by auto
    then show ?thesis by (simp add: exit_continuation_step_def simulated_price [OF assms])
  qed
  then have "for_each (exit_continuation_step cfg env) (map fst (exit_continuation_pending s)) s
               = (s, None)"
    by (intro for_each_unchanged) blast
  then show ?thesis by (simp add: check_exit_continuation_reentries_def)
qed

text \<open>
  Claim C9. When \<open>simulate_orders\<close> is true or absent, \<open>get_current_price\<close> is \<open>None\<close> for
  every symbol and direction, and a pass of the three trigger checks returns the state as it
  was, without an exception: no pending entry fires, is gated or is removed.
\<close>

theorem simulation_mode_never_fires:
  assumes "simulate_orders cfg = None \<or> simulate_orders cfg = Some True"
  shows "get_current_price cfg env sy dir = None
       \<and> check_all_opportunities cfg env s = (s, None)"
  using simulated_price [OF assms] check_sl_hunt_reentries_simulated [OF assms]
    check_tp_continuation_reentries_simulated [OF assms]
    check_exit_continuation_reentries_simulated [OF assms]
  by (simp add: check_all_opportunities_def)

theorem simulation_mode_never_fires_witness:
  "get_current_price (scenario_config None (1 / 10)) live_env ''XAUUSD'' ''buy'' = None
   \<and> check_all_opportunities (scenario_config None (1 / 10)) live_env scenario_state
       = (scenario_state, None)
   \<and> check_all_opportunities (scenario_config (Some True) (1 / 10)) live_env scenario_state
       = (scenario_state, None)"
proof -
  have n: "simulate_orders (scenario_config None (1 / 10)) = None
           \<or> simulate_orders (scenario_config None (1 / 10)) = Some True"
    by (simp add: scenario_config_def)
  have t: "simulate_orders (scenario_config (Some True) (1 / 10)) = None
           \<or> simulate_orders (scenario_config (Some True) (1 / 10)) = Some True"
    by (simp add: scenario_config_def)
  show ?thesis
    using simulation_mode_never_fires [OF n, of live_env "''XAUUSD''" "''buy''" scenario_state]
      simulation_mode_never_fires [OF t, of live_env "''XAUUSD''" "''buy''" scenario_state]
    by simp
qed

section \<open>Registration\<close>

text \<open>
  Claim C8. A registration that does not reach the end of its \<open>try\<close> body (an input rejected
  by the validation, or an exception such as a symbol without configuration) returns the
  state, and so the three pending dictionaries, exactly as it was.
\<close>

theorem registration_atomic:
  "(fst (register_sl_hunt cfg t logic s) \<noteq> Registered \<longrightarrow>
      snd (register_sl_hunt cfg t logic s) = s)
 \<and> (symbol_config cfg (symbol t) = None \<longrightarrow>
      fst (register_sl_hunt cfg t logic s) \<noteq> Registered)
 \<and> (fst (register_tp_continuation t tp_p logic s) \<noteq> Registered \<longrightarrow>
      snd (register_tp_continuation t tp_p logic s) = s)
 \<and> (fst (register_exit_continuation t exit_p reason logic tf s) \<noteq> Registered \<longrightarrow>
      snd (register_exit_continuation t exit_p reason logic tf s) = s)"
  by (auto simp: register_sl_hunt_def register_tp_continuation_def
        register_exit_continuation_def Let_def split: option.splits)

theorem registration_atomic_witness:
  "fst (register_sl_hunt live_config (scenario_trade 0) ''LOGIC1'' scenario_state) = Rejected
 \<and> snd (register_sl_hunt live_config (scenario_trade 0) ''LOGIC1'' scenario_state)
     = scenario_state
 \<and> fst (register_sl_hunt live_config ((scenario_trade 1900)\<lparr>symbol := ''EURUSD''\<rparr>) ''LOGIC1''
          scenario_state) = Failed (KeyError ''EURUSD'')
 \<and> snd (register_sl_hunt live_config ((scenario_trade 1900)\<lparr>symbol := ''EURUSD''\<rparr>) ''LOGIC1''
          scenario_state) = scenario_state
 \<and> snd (register_tp_continuation (scenario_trade 1900) 0 ''LOGIC1'' scenario_state)
     = scenario_state
 \<and> snd (register_exit_continuation (scenario_trade 1900) 0 ''REVERSAL'' ''LOGIC1'' ''15M''
          scenario_state) = scenario_state"
proof -
  have f1: "fst (register_sl_hunt live_config (scenario_trade 0) ''LOGIC1'' scenario_state)
              = Rejected"
    by (simp add: register_sl_hunt_def scenario_trade_def)
  have f2: "fst (register_sl_hunt live_config ((scenario_trade 1900)\<lparr>symbol := ''EURUSD''\<rparr>)
              ''LOGIC1'' scenario_state) = Failed (KeyError ''EURUSD'')"
    by (simp add: register_sl_hunt_def scenario_trade_def live_config_def scenario_config_def)
  have f3: "fst (register_tp_continuation (scenario_trade 1900) 0 ''LOGIC1'' scenario_state)
              = Rejected"
    by (simp add: register_tp_continuation_def scenario_trade_def)
  have f4: "fst (register_exit_continuation (scenario_trade 1900) 0 ''REVERSAL'' ''LOGIC1''
              ''15M'' scenario_state) = Rejected"
    by (simp add: register_exit_continuation_def)
  show ?thesis
    using f1 f2 f3 f4
      registration_atomic [of live_config "scenario_trade 0" "''LOGIC1''" scenario_state]
      registration_atomic [of live_config "scenario_trade 1900" "''LOGIC1''" scenario_state
        0 0 "''REVERSAL''" "''15M''"]
      registration_atomic [of live_config "(scenario_trade 1900)\<lparr>symbol := ''EURUSD''\<rparr>"
        "''LOGIC1''" scenario_state]
    by simp
qed

lemma map_of_update_same: "map_of (AList.update k v al) k = Some v"
  by (simp add: update_conv')

text \<open>
  Claim C2, as amended. For a trade with a non-empty chain id, a stop-loss other than zero and
  a configured symbol, \<open>register_sl_hunt\<close> stores under the symbol the target
  \<open>sl + offset_pips * pip_size\<close> for a buy and \<open>sl - offset_pips * pip_size\<close> otherwise. It is
  a no-op when the chain id is missing or empty or when the stop-loss is zero.
\<close>

theorem register_sl_hunt_target:
  "(chain_id t = Some cid \<longrightarrow> cid \<noteq> [] \<longrightarrow> sl t \<noteq> 0 \<longrightarrow>
    symbol_config cfg (symbol t) = Some sc \<longrightarrow>
      fst (register_sl_hunt cfg t logic s) = Registered
    \<and> map_of (sl_hunt_pending (snd (register_sl_hunt cfg t logic s))) (symbol t)
        = Some \<lparr>target_price =
                   (if direction t = ''buy''
                    then sl t + sl_hunt_offset_pips (re_entry_config cfg) * pip_size sc
                    else sl t - sl_hunt_offset_pips (re_entry_config cfg) * pip_size sc),
                 sh_direction = direction t, sh_chain_id = cid, sl_price = sl t,
                 sh_logic = logic\<rparr>)
 \<and> (chain_id t = None \<or> chain_id t = Some [] \<or> sl t = 0 \<longrightarrow>
      register_sl_hunt cfg t logic s = (Rejected, s))"
  by (auto simp: register_sl_hunt_def Let_def map_of_update_same split: option.splits)

theorem register_sl_hunt_target_witness:
  "fst (register_sl_hunt (scenario_config (Some False) (1 / 100)) (scenario_trade 1900)
         ''LOGIC1'' no_pending_state) = Registered
 \<and> map_of (sl_hunt_pending (snd (register_sl_hunt (scenario_config (Some False) (1 / 100))
              (scenario_trade 1900) ''LOGIC1'' no_pending_state))) ''XAUUSD''
     = Some \<lparr>target_price = 190001 / 100, sh_direction = ''buy'', sh_chain_id = ''chain1'',
             sl_price = 1900, sh_logic = ''LOGIC1''\<rparr>
 \<and> register_sl_hunt (scenario_config (Some False) (1 / 100)) (scenario_trade 0) ''LOGIC1''
      no_pending_state = (Rejected, no_pending_state)
 \<and> register_sl_hunt (scenario_config (Some False) (1 / 100))
      ((scenario_trade 1900)\<lparr>chain_id := None\<rparr>) ''LOGIC1'' no_pending_state
     = (Rejected, no_pending_state)"
proof -
  let ?cfg = "scenario_config (Some False) (1 / 100)"
  let ?sc = "\<lparr>pip_size = 1 / 100, pip_value_per_std_lot = 1\<rparr> :: symbol_config_entry"
  have t: "chain_id (scenario_trade 1900) = Some ''chain1''" "sl (scenario_trade 1900) = 1900"
      "symbol (scenario_trade 1900) = ''XAUUSD''" "direction (scenario_trade 1900) = ''buy''"
    by (simp_all add: scenario_trade_def)
  have sc: "symbol_config ?cfg ''XAUUSD'' = Some ?sc" by (simp add: scenario_config_def)
  have off: "sl_hunt_offset_pips (re_entry_config ?cfg) = 1" by (simp add: scenario_config_def)
  have w1: "fst (register_sl_hunt ?cfg (scenario_trade 1900) ''LOGIC1'' no_pending_state)
              = Registered
     \<and> map_of (sl_hunt_pending (snd (register_sl_hunt ?cfg (scenario_trade 1900) ''LOGIC1''
                  no_pending_state))) ''XAUUSD''
        = Some \<lparr>target_price = 190001 / 100, sh_direction = ''buy'', sh_chain_id = ''chain1'',
             sl_price = 1900, sh_logic = ''LOGIC1''\<rparr>"
    using register_sl_hunt_target [of "scenario_trade 1900" "''chain1''" ?cfg ?sc "''LOGIC1''"
        no_pending_state, THEN conjunct1] t sc off
    by simp
  have w2: "register_sl_hunt ?cfg (scenario_trade 0) ''LOGIC1'' no_pending_state
              = (Rejected, no_pending_state)"
    using register_sl_hunt_target [of "scenario_trade 0" "''chain1''" ?cfg ?sc "''LOGIC1''"
        no_pending_state, THEN conjunct2]
    by (simp add: scenario_trade_def)
  have w3: "register_sl_hunt ?cfg ((scenario_trade 1900)\<lparr>chain_id := None\<rparr>) ''LOGIC1''
              no_pending_state = (Rejected, no_pending_state)"
    using register_sl_hunt_target [of "(scenario_trade 1900)\<lparr>chain_id := None\<rparr>" "''chain1''"
        ?cfg ?sc "''LOGIC1''" no_pending_state, THEN conjunct2]
    by simp
  show ?thesis using w1 w2 w3 by simp
qed

text \<open>
  Claim C2, as stated, asks for a no-op on every non-positive stop-loss. The guard of the
  source is \<^verbatim>\<open>not trade.sl or trade.sl == 0\<close>: a stop-loss of \<open>-1\<close> passes it and a pending
  entry is created.
\<close>

theorem register_sl_hunt_negative_sl_counterexample:
  "sl (scenario_trade (- 1)) \<le> 0
 \<and> sl_hunt_pending no_pending_state = []
 \<and> sl_hunt_pending (snd (register_sl_hunt live_config (scenario_trade (- 1)) ''LOGIC1''
                            no_pending_state))
     = [(''XAUUSD'', \<lparr>target_price = - 9 / 10, sh_direction = ''buy'', sh_chain_id = ''chain1'',
                       sl_price = - 1, sh_logic = ''LOGIC1''\<rparr>)]"
  by (simp add: register_sl_hunt_def scenario_trade_def live_config_def scenario_config_def
        no_pending_state_def scenario_state_def Let_def)

section \<open>The TP-continuation scenario\<close>

text \<open>
  Claim C7. TP = 1950.00, gap = 2 pips, pip size = 0.1, direction sell: the target is 1949.80;
  at 1949.70 the gap is reached; when the alignment gate answers not aligned, or a direction
  other than the trigger's, the check removes the entry and places no order, opens no trade
  and leaves the chains as they were.
\<close>

theorem tp_continuation_scenario:
  assumes enabled: "tp_reentry_enabled (re_entry_config cfg)"
    and gap: "tp_continuation_price_gap_pips (re_entry_config cfg) = 2"
    and sc: "symbol_config cfg sy = Some sc" and pip: "pip_size sc = 1 / 10"
    and pend: "tp_continuation_pending s = [(sy, p)]"
    and tpp: "tp_price p = 1950" and dir: "tc_direction p = ''sell''"
    and price: "get_current_price cfg env sy ''sell'' = Some (19497 / 10)"
    and gate: "\<not> aligned (check_logic_alignment env sy (tc_logic p))
             \<or> direction_mismatch ''sell'' (check_logic_alignment env sy (tc_logic p))"
  shows "gap_target_price 2 (1 / 10) ''sell'' 1950 = 19498 / 10
       \<and> price_reached ''sell'' (19497 / 10) (19498 / 10)
       \<and> check_tp_continuation_reentries cfg env s = (s\<lparr>tp_continuation_pending := []\<rparr>, None)
       \<and> placed_orders (fst (check_tp_continuation_reentries cfg env s)) = placed_orders s
       \<and> active_chains (fst (check_tp_continuation_reentries cfg env s)) = active_chains s
       \<and> open_trades (fst (check_tp_continuation_reentries cfg env s)) = open_trades s"
proof -
  have tgt: "gap_target_price 2 (1 / 10) ''sell'' 1950 = 19498 / 10"
    by (simp add: gap_target_price_def)
  have reached: "price_reached ''sell'' (19497 / 10) (19498 / 10)"
    by (simp add: price_reached_def)
  have p: "map_of (tp_continuation_pending s) sy = Some p"
    and del: "AList.delete sy (tp_continuation_pending s) = []"
    by (simp_all add: pend)
  have price': "get_current_price cfg env sy (tc_direction p) = Some (19497 / 10)"
    unfolding dir by (rule price)
  have nz: "pip_size sc \<noteq> 0" unfolding pip by simp
  have r: "price_reached (tc_direction p) (19497 / 10)
             (gap_target_price (tp_continuation_price_gap_pips (re_entry_config cfg))
                (pip_size sc) (tc_direction p) (tp_price p))"
    unfolding gap pip tpp dir tgt by (rule reached)
  have gate': "\<not> aligned (check_logic_alignment env sy (tc_logic p))
             \<or> direction_mismatch (tc_direction p) (check_logic_alignment env sy (tc_logic p))"
    unfolding dir by (rule gate)
  have step: "tp_continuation_step cfg env sy s = Inr (s\<lparr>tp_continuation_pending := []\<rparr>)"
    using gate' by (auto simp: tp_continuation_step_def Let_def p price' sc nz r del)
  have pass: "check_tp_continuation_reentries cfg env s
                = (s\<lparr>tp_continuation_pending := []\<rparr>, None)"
    using enabled pend step by (simp add: check_tp_continuation_reentries_def)
  show ?thesis using tgt reached pass by simp
qed

theorem tp_continuation_scenario_witness:
  "check_tp_continuation_reentries live_config misaligned_env scenario_state
     = (scenario_state\<lparr>tp_continuation_pending := []\<rparr>, None)
   \<and> placed_orders (fst (check_tp_continuation_reentries live_config misaligned_env
                           scenario_state)) = []
   \<and> active_chains (fst (check_tp_continuation_reentries live_config misaligned_env
                           scenario_state)) ''chain1'' = Some scenario_chain"
proof -
  let ?sc = "\<lparr>pip_size = 1 / 10, pip_value_per_std_lot = 1\<rparr> :: symbol_config_entry"
  have enabled: "tp_reentry_enabled (re_entry_config live_config)"
    by (simp add: live_config_def scenario_config_def)
  have gap: "tp_continuation_price_gap_pips (re_entry_config live_config) = 2"
    by (simp add: live_config_def scenario_config_def)
  have sc: "symbol_config live_config ''XAUUSD'' = Some ?sc"
    by (simp add: live_config_def scenario_config_def)
  have pip: "pip_size ?sc = 1 / 10" by simp
  have pend: "tp_continuation_pending scenario_state = [(''XAUUSD'', scenario_tp_continuation)]"
    by (simp add: scenario_state_def)
  have tpp: "tp_price scenario_tp_continuation = 1950"
    and dir: "tc_direction scenario_tp_continuation = ''sell''"
    by (simp_all add: scenario_tp_continuation_def)
  have price: "get_current_price live_config misaligned_env ''XAUUSD'' ''sell''
                 = Some (19497 / 10)"
    by (simp add: get_current_price_def live_config_def misaligned_env_def scenario_config_def
          scenario_env_def)
  have gate: "\<not> aligned (check_logic_alignment misaligned_env ''XAUUSD''
                            (tc_logic scenario_tp_continuation))
        \<or> direction_mismatch ''sell'' (check_logic_alignment misaligned_env ''XAUUSD''
                            (tc_logic scenario_tp_continuation))"
    by (simp add: misaligned_env_def scenario_env_def)
  have st: "placed_orders scenario_state = []"
      "active_chains scenario_state ''chain1'' = Some scenario_chain"
    by (simp_all add: scenario_state_def)
  show ?thesis
    using tp_continuation_scenario [OF enabled gap sc pip pend tpp dir price gate] st
    by simp
qed

section \<open>Rounding to the nearest double\<close>

lemma ilog2_bounds:
  assumes "0 < x"
  shows "2 powi (ilog2 x) \<le> x \<and> x < 2 powi (ilog2 x + 1)"
proof (cases "1 \<le> x")
  case True
  let ?n = "\<lfloor>x\<rfloor>"
  have n: "0 < ?n" using True by simp
  have b1: "1 \<le> bitlen ?n" using n bitlen_eq_zero_iff [of ?n] bitlen_nonneg [of ?n] by linarith
  from bitlen_bounds [OF n] have lo: "(2::int) ^ nat (bitlen ?n - 1) \<le> ?n"
    and hi: "?n < 2 ^ nat (bitlen ?n)" by auto
  have "real_of_int (2 ^ nat (bitlen ?n - 1)) \<le> real_of_int ?n" using lo by linarith
  then have l: "2 ^ nat (bitlen ?n - 1) \<le> x" by (simp add: le_floor_iff)
  have "?n + 1 \<le> 2 ^ nat (bitlen ?n)" using hi by simp
  then have "real_of_int (?n + 1) \<le> real_of_int (2 ^ nat (bitlen ?n))" by linarith
  then have a: "real_of_int (?n + 1) \<le> 2 ^ nat (bitlen ?n)" by simp
  have b: "x < real_of_int (?n + 1)" by linarith
  have h: "x < 2 ^ nat (bitlen ?n)" using a b by (rule less_le_trans [rotated])
  have e: "ilog2 x = bitlen ?n - 1" using True by (simp add: ilog2_def)
  have p1: "(2::real) powi (bitlen ?n - 1) = 2 ^ nat (bitlen ?n - 1)"
    using b1 by (simp add: power_int_def)
  have p2: "(2::real) powi (bitlen ?n - 1 + 1) = 2 ^ nat (bitlen ?n)"
    using b1 by (simp add: power_int_def)
  show ?thesis unfolding e p1 p2 using l h by simp
next
  case False
  let ?c = "\<lceil>1 / x\<rceil>"
  have y1: "1 < 1 / x" using False assms by simp
  have c2: "2 \<le> ?c" using y1 by (simp add: le_ceiling_iff)
  then have c1: "0 < ?c - 1" by simp
  let ?b = "bitlen (?c - 1)"
  have b1: "1 \<le> ?b" using c1 bitlen_eq_zero_iff [of "?c - 1"] bitlen_nonneg [of "?c - 1"] by linarith
  from bitlen_bounds [OF c1] have lo: "(2::int) ^ nat (?b - 1) \<le> ?c - 1"
    and hi: "?c - 1 < 2 ^ nat ?b" by auto
  have chi: "?c \<le> 2 ^ nat ?b" using hi by simp
  have "1 / x \<le> real_of_int ?c" by linarith
  also have "\<dots> \<le> real_of_int (2 ^ nat ?b)" using chi by linarith
  finally have yle: "1 / x \<le> 2 ^ nat ?b" by simp
  have "real_of_int (2 ^ nat (?b - 1)) \<le> real_of_int (?c - 1)" using lo by linarith
  also have "\<dots> < 1 / x" by linarith
  finally have ygt: "2 ^ nat (?b - 1) < 1 / x" by simp
  have e: "ilog2 x = - ?b" using False by (simp add: ilog2_def)
  have p1: "(2::real) powi (- ?b) = 1 / 2 ^ nat ?b"
    using b1 by (simp add: power_int_def field_simps)
  have p2: "(2::real) powi (- ?b + 1) = 1 / 2 ^ nat (?b - 1)"
  proof (cases "?b = 1")
    case True
    then show ?thesis by simp
  next
    case False
    then have "- ?b + 1 < 0" using b1 by simp
    moreover have "nat (- (- ?b + 1)) = nat (?b - 1)" by simp
    ultimately show ?thesis by (simp add: power_int_def field_simps)
  qed
  have l: "1 / 2 ^ nat ?b \<le> x"
  proof -
    have "1 \<le> x * 2 ^ nat ?b" using yle assms by (simp add: field_simps)
    then show ?thesis by (simp add: field_simps)
  qed
  have h: "x < 1 / 2 ^ nat (?b - 1)"
  proof -
    have "x * 2 ^ nat (?b - 1) < 1" using ygt assms by (simp add: field_simps)
    then show ?thesis by (simp add: field_simps)
  qed
  show ?thesis unfolding e p1 p2 using l h by simp
qed


lemma ilog2_unique:
  assumes x: "0 < x" and lo: "2 powi e \<le> x" and hi: "x < 2 powi (e + 1)"
  shows "ilog2 x = e"
proof (rule ccontr)
  assume ne: "ilog2 x \<noteq> e"
  from ilog2_bounds [OF x] have l: "2 powi (ilog2 x) \<le> x" and h: "x < 2 powi (ilog2 x + 1)"
    by auto
  show False
  proof (cases "ilog2 x < e")
    case True
    then have "(2::real) powi (ilog2 x + 1) \<le> 2 powi e"
      by (intro power_int_increasing) auto
    then show False using h lo by linarith
  next
    case False
    then have "e + 1 \<le> ilog2 x" using ne by simp
    then have "(2::real) powi (e + 1) \<le> 2 powi (ilog2 x)"
      by (intro power_int_increasing) auto
    then show False using l hi by linarith
  qed
qed

lemma ilog2_mono:
  assumes x: "0 < x" and xy: "x \<le> y"
  shows "ilog2 x \<le> ilog2 y"
proof (rule ccontr)
  assume "\<not> ilog2 x \<le> ilog2 y"
  then have "ilog2 y + 1 \<le> ilog2 x" by simp
  then have "(2::real) powi (ilog2 y + 1) \<le> 2 powi (ilog2 x)"
    by (intro power_int_increasing) auto
  moreover have "y < 2 powi (ilog2 y + 1)" using ilog2_bounds [of y] x xy by simp
  moreover have "2 powi (ilog2 x) \<le> x" using ilog2_bounds [OF x] by simp
  ultimately show False using xy by linarith
qed

lemma round_half_even_cases:
  "round_half_even t = \<lfloor>t\<rfloor> \<or> round_half_even t = \<lfloor>t\<rfloor> + 1"
  by (simp add: round_half_even_def Let_def)

lemma round_half_even_of_int [simp]: "round_half_even (of_int n) = n"
  by (simp add: round_half_even_def Let_def)

lemma round_half_even_le:
  assumes "t \<le> of_int n"
  shows "round_half_even t \<le> n"
proof (cases "\<lfloor>t\<rfloor> < n")
  case True
  then show ?thesis using round_half_even_cases [of t] by linarith
next
  case False
  have "\<lfloor>t\<rfloor> \<le> n" using assms by (simp add: floor_le_iff)
  then have "\<lfloor>t\<rfloor> = n" using False by simp
  then have "of_int n \<le> t" by linarith
  then have "t = of_int n" using assms by simp
  then show ?thesis by simp
qed

lemma round_half_even_ge:
  assumes "of_int n \<le> t"
  shows "n \<le> round_half_even t"
proof -
  have "n \<le> \<lfloor>t\<rfloor>" using assms by (simp add: le_floor_iff)
  then show ?thesis using round_half_even_cases [of t] by linarith
qed

lemma round_half_even_minus: "round_half_even (- t) = - round_half_even t"
proof (cases "t = of_int \<lfloor>t\<rfloor>")
  case True
  then obtain n where n: "t = of_int n" by metis
  have "- t = of_int (- n)" using n by simp
  then have "round_half_even (- t) = - n" by (metis round_half_even_of_int)
  then show ?thesis using n by simp
next
  case False
  let ?f = "\<lfloor>t\<rfloor>"
  have fl: "\<lfloor>- t\<rfloor> = - ?f - 1"
  proof (rule floor_unique)
    show "of_int (- ?f - 1) \<le> - t" by simp linarith
    have "of_int ?f \<le> t" by simp
    then have "of_int ?f < t" using False by linarith
    then show "- t < of_int (- ?f - 1) + 1" by simp
  qed
  have d: "- t - of_int (- ?f - 1) = 1 - (t - of_int ?f)" by simp
  show ?thesis
    unfolding round_half_even_def Let_def fl d
    by (auto simp: algebra_simps)
qed

lemma ulp_expo: "ulp x = 2 powi (expo x - 52)"
  by (simp add: ulp_def)

lemma ulp_pos: "0 < ulp x"
  by (simp add: ulp_def zero_less_power_int)

lemma ulp_minus: "ulp (- x) = ulp x"
  by (simp add: ulp_def expo_def)

lemma nearest_minus: "nearest (- x) = - nearest x"
  by (simp add: nearest_def ulp_minus round_half_even_minus)

lemma nearest_zero: "nearest 0 = 0"
  using round_half_even_of_int [of 0] by (simp add: nearest_def)

lemma pow_expo_succ: "2 powi (expo x + 1) = 2 ^ 53 * ulp x"
proof -
  have "expo x + 1 = 53 + (expo x - 52)" by simp
  then have "(2::real) powi (expo x + 1) = 2 powi (53 + (expo x - 52))" by (rule arg_cong)
  also have "\<dots> = 2 powi 53 * 2 powi (expo x - 52)" by (rule power_int_add) simp
  finally show ?thesis by (simp add: ulp_expo)
qed

lemma pow_expo: "2 powi (expo x) = 2 ^ 52 * ulp x"
proof -
  have "expo x = 52 + (expo x - 52)" by simp
  then have "(2::real) powi (expo x) = 2 powi (52 + (expo x - 52))" by (rule arg_cong)
  also have "\<dots> = 2 powi 52 * 2 powi (expo x - 52)" by (rule power_int_add) simp
  finally show ?thesis by (simp add: ulp_expo)
qed

lemma below_next_binade:
  assumes "0 < x"
  shows "x < 2 powi (expo x + 1)"
proof -
  have "x < 2 powi (ilog2 x + 1)" using ilog2_bounds [OF assms] by simp
  also have "\<dots> \<le> 2 powi (expo x + 1)"
    using assms by (intro power_int_increasing) (auto simp: expo_def)
  finally show ?thesis .
qed

lemma above_binade:
  assumes "0 < x" and "- 1022 < expo x"
  shows "2 powi (expo x) \<le> x"
proof -
  have "expo x = ilog2 x" using assms by (auto simp: expo_def max_def split: if_splits)
  then show ?thesis using ilog2_bounds [OF assms(1)] by simp
qed

lemma expo_mono:
  assumes "0 < x" "x \<le> y"
  shows "expo x \<le> expo y"
  using ilog2_mono [OF assms] assms by (auto simp: expo_def)

lemma expo_lower: "- 1022 \<le> expo x"
  by (simp add: expo_def)

lemma nearest_fixed_multiple:
  assumes "nearest y = y"
  shows "y / ulp y = of_int (round_half_even (y / ulp y))"
proof -
  have "of_int (round_half_even (y / ulp y)) * ulp y = y" using assms by (simp add: nearest_def)
  then show ?thesis using ulp_pos [of y] by (simp add: field_simps)
qed

lemma nearest_le_pos:
  assumes x: "0 < x" and xy: "x \<le> y" and fy: "nearest y = y"
  shows "nearest x \<le> y"
proof (cases "expo x = expo y")
  case True
  then have u: "ulp x = ulp y" by (simp add: ulp_expo)
  let ?n = "round_half_even (y / ulp y)"
  have yn: "y / ulp y = of_int ?n" using fy by (rule nearest_fixed_multiple)
  have "x / ulp x \<le> y / ulp y" using xy ulp_pos [of y] u by (simp add: divide_right_mono)
  then have "round_half_even (x / ulp x) \<le> ?n" using yn by (intro round_half_even_le) simp
  then have "of_int (round_half_even (x / ulp x)) * ulp x \<le> of_int ?n * ulp x"
    using ulp_pos [of x] by (simp add: mult_right_mono)
  also have "\<dots> = y" using yn u ulp_pos [of y] by (simp add: field_simps)
  finally show ?thesis by (simp add: nearest_def)
next
  case False
  then have lt: "expo x < expo y" using expo_mono [OF x xy] by simp
  have "x < 2 ^ 53 * ulp x" using below_next_binade [OF x] by (simp add: pow_expo_succ)
  then have "x / ulp x \<le> of_int (2 ^ 53)" using ulp_pos [of x] by (simp add: field_simps)
  then have "round_half_even (x / ulp x) \<le> 2 ^ 53" by (rule round_half_even_le)
  then have "of_int (round_half_even (x / ulp x)) \<le> (2 ^ 53 :: real)"
    by (metis of_int_le_iff of_int_numeral of_int_power)
  then have "nearest x \<le> 2 ^ 53 * ulp x"
    using ulp_pos [of x] by (simp add: nearest_def mult_right_mono)
  also have "\<dots> = 2 powi (expo x + 1)" by (simp add: pow_expo_succ)
  also have "\<dots> \<le> 2 powi (expo y)" using lt by (intro power_int_increasing) auto
  also have "\<dots> \<le> y"
    using lt expo_lower [of x] x xy by (intro above_binade) auto
  finally show ?thesis .
qed

lemma nearest_ge_pos:
  assumes y: "0 < y" and yx: "y \<le> x" and fy: "nearest y = y"
  shows "y \<le> nearest x"
proof (cases "expo x = expo y")
  case True
  then have u: "ulp x = ulp y" by (simp add: ulp_expo)
  let ?n = "round_half_even (y / ulp y)"
  have yn: "y / ulp y = of_int ?n" using fy by (rule nearest_fixed_multiple)
  have "y / ulp y \<le> x / ulp x" using yx ulp_pos [of y] u by (simp add: divide_right_mono)
  then have "?n \<le> round_half_even (x / ulp x)" using yn by (intro round_half_even_ge) simp
  then have "of_int ?n * ulp x \<le> of_int (round_half_even (x / ulp x)) * ulp x"
    using ulp_pos [of x] by (simp add: mult_right_mono)
  moreover have "of_int ?n * ulp x = y" using yn u ulp_pos [of y] by (simp add: field_simps)
  ultimately show ?thesis by (simp add: nearest_def)
next
  case False
  then have lt: "expo y < expo x" using expo_mono [OF y yx] by simp
  have x: "0 < x" using y yx by simp
  have "y < 2 powi (expo y + 1)" using y by (rule below_next_binade)
  also have "\<dots> \<le> 2 powi (expo x)" using lt by (intro power_int_increasing) auto
  finally have ylt: "y < 2 powi (expo x)" .
  have "2 powi (expo x) \<le> x" using lt expo_lower [of y] x by (intro above_binade) auto
  then have "2 ^ 52 * ulp x \<le> x" by (simp add: pow_expo)
  then have "of_int (2 ^ 52) \<le> x / ulp x" using ulp_pos [of x] by (simp add: field_simps)
  then have "2 ^ 52 \<le> round_half_even (x / ulp x)" by (rule round_half_even_ge)
  then have "(2 ^ 52 :: real) \<le> of_int (round_half_even (x / ulp x))"
    by (metis of_int_le_iff of_int_numeral of_int_power)
  then have "2 ^ 52 * ulp x \<le> nearest x"
    using ulp_pos [of x] by (simp add: nearest_def mult_right_mono)
  then have "2 powi (expo x) \<le> nearest x" by (simp add: pow_expo)
  then show ?thesis using ylt by simp
qed

lemma nearest_nonpos:
  assumes "x \<le> 0"
  shows "nearest x \<le> 0"
proof -
  have "x / ulp x \<le> of_int 0" using assms ulp_pos [of x] by (simp add: divide_le_0_iff)
  then have "round_half_even (x / ulp x) \<le> 0" by (rule round_half_even_le)
  then have "of_int (round_half_even (x / ulp x)) * ulp x \<le> 0"
    using ulp_pos [of x] by (simp add: mult_le_0_iff)
  then show ?thesis by (simp add: nearest_def)
qed

lemma nearest_nonneg:
  assumes "0 \<le> x"
  shows "0 \<le> nearest x"
  using nearest_nonpos [of "- x"] assms by (simp add: nearest_minus)

lemma nearest_le:
  assumes xy: "x \<le> y" and fy: "nearest y = y"
  shows "nearest x \<le> y"
proof (cases "0 < x")
  case True
  then show ?thesis using xy fy by (rule nearest_le_pos)
next
  case False
  then have x0: "x \<le> 0" by simp
  show ?thesis
  proof (cases "0 \<le> y")
    case True
    then show ?thesis using nearest_nonpos [OF x0] by simp
  next
    case False
    then have "0 < - y" "- y \<le> - x" using xy by simp_all
    moreover have "nearest (- y) = - y" using fy by (simp add: nearest_minus)
    ultimately have "- y \<le> nearest (- x)" by (rule nearest_ge_pos)
    then show ?thesis by (simp add: nearest_minus)
  qed
qed

lemma nearest_ge:
  assumes yx: "y \<le> x" and fy: "nearest y = y"
  shows "y \<le> nearest x"
proof -
  have "- x \<le> - y" using yx by simp
  moreover have "nearest (- y) = - y" using fy by (simp add: nearest_minus)
  ultimately have "nearest (- x) \<le> - y" by (rule nearest_le)
  then show ?thesis by (simp add: nearest_minus)
qed

lemma ilog2_zero: "ilog2 0 = 0"
  by (simp add: ilog2_def bitlen_eq_zero_iff)

lemma is_double_nearest:
  assumes "is_double y"
  shows "nearest y = y"
proof (cases "y = 0")
  case True
  then show ?thesis by (simp add: nearest_zero)
next
  case False
  then show ?thesis using assms
    by (auto simp: is_double_def round_double_def split: if_splits)
qed

lemma is_double_below_overflow:
  assumes "is_double y"
  shows "\<bar>y\<bar> < 2 powi 1024"
proof (cases "y = 0")
  case True
  then show ?thesis by (simp add: zero_less_power_int)
next
  case False
  then have n: "\<not> 1024 \<le> ilog2 \<bar>nearest y\<bar>" using assms
    by (auto simp: is_double_def round_double_def split: if_splits)
  have pos: "0 < \<bar>y\<bar>" using False by simp
  have "ilog2 \<bar>y\<bar> + 1 \<le> 1024" using n is_double_nearest [OF assms] by simp
  then have "(2::real) powi (ilog2 \<bar>y\<bar> + 1) \<le> 2 powi 1024"
    by (intro power_int_increasing) auto
  then show ?thesis using ilog2_bounds [OF pos] by linarith
qed

lemma overflow_large:
  assumes "1024 \<le> ilog2 \<bar>r\<bar>"
  shows "2 powi 1024 \<le> \<bar>r\<bar>"
proof -
  have "r \<noteq> 0" using assms by (auto simp: ilog2_zero)
  then have pos: "0 < \<bar>r\<bar>" by simp
  have "(2::real) powi 1024 \<le> 2 powi (ilog2 \<bar>r\<bar>)"
    using assms by (intro power_int_increasing) auto
  then show ?thesis using ilog2_bounds [OF pos] by linarith
qed

lemma round_double_le:
  assumes xy: "x \<le> y" and dy: "is_double y"
  shows "fl_le (round_double x) (Finite y)"
proof (cases "x = 0")
  case True
  then show ?thesis using xy by (simp add: round_double_def)
next
  case False
  have le: "nearest x \<le> y" using xy is_double_nearest [OF dy] by (rule nearest_le)
  show ?thesis
  proof (cases "1024 \<le> ilog2 \<bar>nearest x\<bar>")
    case ov: True
    show ?thesis
    proof (cases "0 < x")
      case True
      then have "0 \<le> nearest x" by (intro nearest_nonneg) simp
      then have "2 powi 1024 \<le> nearest x" using overflow_large [OF ov] by simp
      then have "2 powi 1024 \<le> \<bar>y\<bar>" using le by linarith
      then have False using is_double_below_overflow [OF dy] by simp
      then show ?thesis ..
    next
      case False
      then show ?thesis using ov \<open>x \<noteq> 0\<close> by (simp add: round_double_def)
    qed
  next
    case False
    then show ?thesis using le \<open>x \<noteq> 0\<close> by (simp add: round_double_def)
  qed
qed

lemma round_double_ge:
  assumes yx: "y \<le> x" and dy: "is_double y"
  shows "fl_le (Finite y) (round_double x)"
proof (cases "x = 0")
  case True
  then show ?thesis using yx by (simp add: round_double_def)
next
  case False
  have ge: "y \<le> nearest x" using yx is_double_nearest [OF dy] by (rule nearest_ge)
  show ?thesis
  proof (cases "1024 \<le> ilog2 \<bar>nearest x\<bar>")
    case ov: True
    show ?thesis
    proof (cases "0 < x")
      case True
      then show ?thesis using ov by (simp add: round_double_def)
    next
      case False
      then have "nearest x \<le> 0" by (intro nearest_nonpos) simp
      then have "2 powi 1024 \<le> - nearest x" using overflow_large [OF ov] by simp
      then have "2 powi 1024 \<le> \<bar>y\<bar>" using ge by linarith
      then have False using is_double_below_overflow [OF dy] by simp
      then show ?thesis ..
    qed
  next
    case False
    then show ?thesis using ge \<open>x \<noteq> 0\<close> by (simp add: round_double_def)
  qed
qed

lemma round_double_nonneg:
  assumes "0 \<le> x"
  shows "round_double x = PosInf \<or> (\<exists>r. round_double x = Finite r \<and> 0 \<le> r)"
  using assms nearest_nonneg [OF assms] by (auto simp: round_double_def)

subsection \<open>Rounding error bounds\<close>

text \<open>
  Rounding moves a number by at most half a unit in the last place. For a number in the normal
  range, \<open>2\<^sup>-\<^sup>1\<^sup>0\<^sup>2\<^sup>2 \<le> \<bar>x\<bar> \<le> 2\<^sup>1\<^sup>0\<^sup>0\<^sup>0\<close>, that is a relative error of at most \<open>2\<^sup>-\<^sup>5\<^sup>3\<close>; the
  lemmas below use the coarser bound of one part in a thousand, which is all the 5% tolerance
  of the validator needs.
\<close>

lemma round_half_even_error: "\<bar>of_int (round_half_even t) - t\<bar> \<le> 1 / 2"
proof -
  have a: "of_int \<lfloor>t\<rfloor> \<le> t" and b: "t < of_int \<lfloor>t\<rfloor> + 1" by linarith+
  show ?thesis
    unfolding round_half_even_def Let_def using a b by (auto simp: abs_le_iff)
qed

lemma nearest_error: "\<bar>nearest x - x\<bar> \<le> ulp x / 2"
proof -
  let ?m = "of_int (round_half_even (x / ulp x)) :: real"
  have u: "0 < ulp x" by (rule ulp_pos)
  have "\<bar>?m - x / ulp x\<bar> * ulp x \<le> 1 / 2 * ulp x"
    using round_half_even_error [of "x / ulp x"] u by (intro mult_right_mono) auto
  moreover have "\<bar>?m - x / ulp x\<bar> * ulp x = \<bar>?m * ulp x - x\<bar>"
  proof -
    have "\<bar>?m - x / ulp x\<bar> * ulp x = \<bar>(?m - x / ulp x) * ulp x\<bar>"
      using u by (simp add: abs_mult)
    also have "(?m - x / ulp x) * ulp x = ?m * ulp x - x" using u by (simp add: field_simps)
    finally show ?thesis .
  qed
  ultimately show ?thesis by (simp add: nearest_def)
qed

lemma expo_normal:
  assumes "2 powi (- 1022) \<le> \<bar>x\<bar>"
  shows "expo x = ilog2 \<bar>x\<bar>"
proof -
  have pos: "0 < \<bar>x\<bar>" using assms zero_less_power_int [of "2::real" "- 1022"] by linarith
  have "- 1022 \<le> ilog2 \<bar>x\<bar>"
  proof (rule ccontr)
    assume "\<not> - 1022 \<le> ilog2 \<bar>x\<bar>"
    then have "ilog2 \<bar>x\<bar> + 1 \<le> - 1022" by simp
    then have "(2::real) powi (ilog2 \<bar>x\<bar> + 1) \<le> 2 powi (- 1022)"
      by (intro power_int_increasing) auto
    then show False using ilog2_bounds [OF pos] assms by linarith
  qed
  then show ?thesis by (simp add: expo_def)
qed

lemma ulp_normal:
  assumes "2 powi (- 1022) \<le> \<bar>x\<bar>"
  shows "ulp x \<le> \<bar>x\<bar> / 2 ^ 52"
proof -
  have pos: "0 < \<bar>x\<bar>" using assms zero_less_power_int [of "2::real" "- 1022"] by linarith
  have "2 ^ 52 * ulp x = 2 powi (expo x)" by (simp add: pow_expo)
  also have "\<dots> = 2 powi (ilog2 \<bar>x\<bar>)" using expo_normal [OF assms] by simp
  also have "\<dots> \<le> \<bar>x\<bar>" using ilog2_bounds [OF pos] by simp
  finally show ?thesis by (simp add: field_simps)
qed

lemma ulp_subnormal:
  assumes "\<bar>x\<bar> < 2 powi (- 1022)" and "x \<noteq> 0"
  shows "ulp x = 2 powi (- 1074)"
proof -
  have pos: "0 < \<bar>x\<bar>" using assms by simp
  have "ilog2 \<bar>x\<bar> < - 1022"
  proof (rule ccontr)
    assume "\<not> ilog2 \<bar>x\<bar> < - 1022"
    then have "(2::real) powi (- 1022) \<le> 2 powi (ilog2 \<bar>x\<bar>)"
      by (intro power_int_increasing) auto
    then show False using ilog2_bounds [OF pos] assms by linarith
  qed
  then have "expo x = - 1022" by (simp add: expo_def)
  then show ?thesis by (simp add: ulp_def)
qed

lemma nearest_error_general:
  "\<bar>nearest x - x\<bar> \<le> \<bar>x\<bar> / 2 ^ 53 + 2 powi (- 1075)"
proof (cases "x = 0")
  case True
  then show ?thesis using zero_less_power_int [of "2::real" "- 1075"] by (simp add: nearest_zero)
next
  case False
  have h: "(2::real) powi (- 1074) / 2 = 2 powi (- 1075)"
  proof -
    have "(2::real) powi (- 1074) = 2 powi (1 + (- 1075))" by simp
    also have "\<dots> = 2 powi 1 * 2 powi (- 1075)" by (rule power_int_add) simp
    finally show ?thesis by simp
  qed
  have p: "0 < (2::real) powi (- 1075)" by (simp add: zero_less_power_int)
  show ?thesis
  proof (cases "2 powi (- 1022) \<le> \<bar>x\<bar>")
    case True
    have "\<bar>nearest x - x\<bar> \<le> ulp x / 2" by (rule nearest_error)
    also have "\<dots> \<le> (\<bar>x\<bar> / 2 ^ 52) / 2" using ulp_normal [OF True] by simp
    also have "\<dots> = \<bar>x\<bar> / 2 ^ 53" by simp
    finally show ?thesis using p by linarith
  next
    case False
    then have "ulp x = 2 powi (- 1074)" using \<open>x \<noteq> 0\<close> by (intro ulp_subnormal) auto
    then have "\<bar>nearest x - x\<bar> \<le> 2 powi (- 1075)" using nearest_error [of x] h by simp
    moreover have "0 \<le> \<bar>x\<bar> / 2 ^ 53" by simp
    ultimately show ?thesis by linarith
  qed
qed

lemma round_double_error:
  assumes "\<bar>x\<bar> \<le> 2 powi 1000"
  shows "\<exists>r. round_double x = Finite r \<and> \<bar>r - x\<bar> \<le> \<bar>x\<bar> / 2 ^ 53 + 2 powi (- 1075)"
proof (cases "x = 0")
  case True
  then show ?thesis using zero_less_power_int [of "2::real" "- 1075"]
    by (simp add: round_double_def)
next
  case False
  have err: "\<bar>nearest x - x\<bar> \<le> \<bar>x\<bar> / 2 ^ 53 + 2 powi (- 1075)"
    by (rule nearest_error_general)
  have small: "(2::real) powi (- 1075) \<le> 2 powi 1000" by (intro power_int_increasing) auto
  have "\<bar>x\<bar> / 2 ^ 53 \<le> \<bar>x\<bar>" by (simp add: field_simps)
  then have "\<bar>nearest x\<bar> \<le> 3 * 2 powi 1000" using err assms small by linarith
  also have "\<dots> < 4 * 2 powi 1000" by (simp add: zero_less_power_int)
  also have "\<dots> = 2 powi 1002"
  proof -
    have "(2::real) powi 1002 = 2 powi (2 + 1000)" by simp
    also have "\<dots> = 2 powi 2 * 2 powi 1000" by (rule power_int_add) simp
    finally show ?thesis by simp
  qed
  also have "\<dots> \<le> 2 powi 1024" by (intro power_int_increasing) auto
  finally have "\<not> 1024 \<le> ilog2 \<bar>nearest x\<bar>" using overflow_large [of "nearest x"] by linarith
  then show ?thesis using False err by (simp add: round_double_def)
qed

lemma round_double_relative:
  assumes lo: "2 powi (- 1022) \<le> \<bar>x\<bar>" and hi: "\<bar>x\<bar> \<le> 2 powi 1000"
  shows "\<exists>r. round_double x = Finite r \<and> \<bar>r - x\<bar> \<le> \<bar>x\<bar> / 1000"
proof -
  from round_double_error [OF hi] obtain r where
    r: "round_double x = Finite r" "\<bar>r - x\<bar> \<le> \<bar>x\<bar> / 2 ^ 53 + 2 powi (- 1075)" by blast
  have "(2::real) powi (- 1075) = 2 powi (- 53 + (- 1022))" by simp
  also have "\<dots> = 2 powi (- 53) * 2 powi (- 1022)" by (rule power_int_add) simp
  also have "\<dots> \<le> 2 powi (- 53) * \<bar>x\<bar>" using lo by (intro mult_left_mono) auto
  also have "\<dots> = \<bar>x\<bar> / 2 ^ 53" by (simp add: power_int_minus field_simps)
  finally have "2 powi (- 1075) \<le> \<bar>x\<bar> / 2 ^ 53" .
  then have "\<bar>r - x\<bar> \<le> 2 * (\<bar>x\<bar> / 2 ^ 53)" using r(2) by linarith
  also have "\<dots> \<le> \<bar>x\<bar> / 1000" by (simp add: field_simps)
  finally show ?thesis using r(1) by blast
qed

lemma round_double_minus: "round_double (- x) = (case round_double x of
    Finite r \<Rightarrow> Finite (- r) | PosInf \<Rightarrow> NegInf | NegInf \<Rightarrow> PosInf | NaN \<Rightarrow> NaN)"
  by (simp add: round_double_def nearest_minus)

lemma round_double_abs: "fl_abs (round_double x) = round_double \<bar>x\<bar>"
proof (cases "0 \<le> x")
  case True
  then have "\<bar>x\<bar> = x" by simp
  moreover have "fl_abs (round_double x) = round_double x"
    using round_double_nonneg [OF True] by auto
  ultimately show ?thesis by simp
next
  case False
  then have a: "\<bar>x\<bar> = - x" and nn: "0 \<le> - x" by simp_all
  from round_double_nonneg [OF nn] show ?thesis
    unfolding a using round_double_minus [of "- x"]
    by (auto split: double.splits)
qed

lemma pow2_split: "(2::real) powi (m + n) = 2 powi m * 2 powi n"
  by (rule power_int_add) simp

lemma in_range:
  fixes X x :: real
  assumes X: "2 powi (- 400) \<le> X" "X \<le> 2 powi 400" and x: "X / 2 \<le> x" "x \<le> 2 * X"
  shows "2 powi (- 1022) \<le> \<bar>x\<bar> \<and> \<bar>x\<bar> \<le> 2 powi 1000"
proof -
  have p: "0 < (2::real) powi (- 400)" by (simp add: zero_less_power_int)
  have xpos: "0 < x" using X x p by linarith
  have "(2::real) powi (- 1022) \<le> 2 powi (- 401)" by (intro power_int_increasing) auto
  also have "(2::real) powi (- 401) = 2 powi (- 400) / 2"
    using pow2_split [of "- 1" "- 400"] by (simp add: power_int_minus)
  also have "\<dots> \<le> X / 2" using X by simp
  finally have lo: "2 powi (- 1022) \<le> x" using x by linarith
  have "x \<le> 2 * 2 powi 400" using X x by linarith
  also have "\<dots> = 2 powi 401" using pow2_split [of 1 400] by simp
  also have "\<dots> \<le> 2 powi 1000" by (intro power_int_increasing) auto
  finally have hi: "x \<le> 2 powi 1000" .
  show ?thesis using lo hi xpos by simp
qed

lemma round_close:
  fixes X x :: real
  assumes X: "2 powi (- 400) \<le> X" "X \<le> 2 powi 400" and x: "X / 2 \<le> x" "x \<le> 2 * X"
  shows "\<exists>r. round_double x = Finite r \<and> x * (999 / 1000) \<le> r \<and> r \<le> x * (1001 / 1000)"
proof -
  have p: "0 < (2::real) powi (- 400)" by (simp add: zero_less_power_int)
  have xpos: "0 < x" using X x p by linarith
  from in_range [OF X x] have "2 powi (- 1022) \<le> \<bar>x\<bar>" "\<bar>x\<bar> \<le> 2 powi 1000" by auto
  from round_double_relative [OF this] obtain r where
    r: "round_double x = Finite r" "\<bar>r - x\<bar> \<le> \<bar>x\<bar> / 1000" by blast
  have "\<bar>r - x\<bar> \<le> x / 1000" using r(2) xpos by simp
  then have "x * (999 / 1000) \<le> r \<and> r \<le> x * (1001 / 1000)" by linarith
  then show ?thesis using r(1) by blast
qed

lemma is_double_half: "is_double (1 / 2)"
  unfolding is_double_def by code_simp

lemma pow2_range_mult:
  fixes x y :: real
  assumes "2 powi m \<le> x" "x \<le> 2 powi n" "2 powi m' \<le> y" "y \<le> 2 powi n'"
  shows "2 powi (m + m') \<le> x * y \<and> x * y \<le> 2 powi (n + n')"
proof -
  have pm: "0 < (2::real) powi m" and pm': "0 < (2::real) powi m'"
    by (simp_all add: zero_less_power_int)
  have x: "0 \<le> x" and y: "0 \<le> y" using assms pm pm' by linarith+
  have "2 powi m * 2 powi m' \<le> x * y"
    using assms pm pm' x y by (intro mult_mono) auto
  moreover have "x * y \<le> 2 powi n * 2 powi n'"
    using assms pm pm' x y by (intro mult_mono) auto
  ultimately show ?thesis by (simp add: pow2_split)
qed

lemma pow2_range_inverse:
  fixes x :: real
  assumes "2 powi m \<le> x" "x \<le> 2 powi n"
  shows "2 powi (- n) \<le> 1 / x \<and> 1 / x \<le> 2 powi (- m)"
proof -
  have pm: "0 < (2::real) powi m" by (simp add: zero_less_power_int)
  have x: "0 < x" using assms pm by linarith
  have pn: "0 < (2::real) powi n" by (simp add: zero_less_power_int)
  have "1 / 2 powi n \<le> 1 / x" using assms x mult_pos_pos [OF x pn] by (intro divide_left_mono) auto
  moreover have "1 / x \<le> 1 / 2 powi m"
    using assms x pm mult_pos_pos [OF x pm] by (intro divide_left_mono) auto
  ultimately show ?thesis by (simp add: power_int_minus field_simps)
qed

lemma pow2_range_widen:
  fixes x :: real
  assumes "2 powi m \<le> x" "x \<le> 2 powi n" "- 400 \<le> m" "n \<le> 400"
  shows "2 powi (- 400) \<le> x" "x \<le> 2 powi 400"
proof -
  have "(2::real) powi (- 400) \<le> 2 powi m" using assms by (intro power_int_increasing) auto
  then show "2 powi (- 400) \<le> x" using assms by linarith
  have "(2::real) powi n \<le> 2 powi 400" using assms by (intro power_int_increasing) auto
  then show "x \<le> 2 powi 400" using assms by linarith
qed


section \<open>The profit-booking stop-loss\<close>

text \<open>The literals of the calculator, and its arithmetic at a lot of 0.03 and at a lot of \<open>10\<^sup>1\<^sup>5\<close>.\<close>

lemma double_literals:
  "lit (1 / 100) = Finite (5764607523034235 / 576460752303423488)"
  "lit 1 = Finite 1"
  "lit (3 / 100) = Finite (1080863910568919 / 36028797018963968)"
  "lit (5 / 100) = Finite (3602879701896397 / 72057594037927936)"
  "lit (1 / 20) = Finite (3602879701896397 / 72057594037927936)"
  "fl_mul (Finite 10) (Finite (3602879701896397 / 72057594037927936)) = Finite (1 / 2)"
  "fl_mul (Finite (5764607523034235 / 576460752303423488)) (Finite 50) = Finite (1 / 2)"
  by code_simp+

lemma loss_chain_small_lot:
  "fl_mul (Finite 1) (Finite (1080863910568919 / 36028797018963968)) = Finite (1080863910568919 / 36028797018963968)"
  "fl_div (Finite 10) (Finite (1080863910568919 / 36028797018963968)) = Inr (Finite (2932031007402667 / 8796093022208))"
  "fl_mul (Finite (2932031007402667 / 8796093022208)) (Finite (5764607523034235 / 576460752303423488)) = Finite (1876499844737707 / 562949953421312)"
  "fl_sub (Finite 1910) (Finite (1876499844737707 / 562949953421312)) = Finite (8385608681171627 / 4398046511104)"
  "fl_sub (Finite 1910) (Finite (8385608681171627 / 4398046511104)) = Finite (14660155037013 / 4398046511104)"
  "fl_div (Finite (14660155037013 / 4398046511104)) (Finite (5764607523034235 / 576460752303423488)) = Inr (Finite (366503875925325 / 1099511627776))"
  "fl_mul (Finite (366503875925325 / 1099511627776)) (Finite (1080863910568919 / 36028797018963968)) = Finite (43980465111039 / 4398046511104)"
  "fl_sub (Finite (43980465111039 / 4398046511104)) (Finite 10) = Finite (- (1 / 4398046511104))"
  by code_simp+

lemma loss_chain_huge_lot:
  "fl_mul (Finite 1) (Finite 1000000000000000) = Finite 1000000000000000"
  "fl_div (Finite 10) (Finite 1000000000000000) = Inr (Finite (6338253001141147 / 633825300114114700748351602688))"
  "fl_mul (Finite (6338253001141147 / 633825300114114700748351602688)) (Finite (5764607523034235 / 576460752303423488)) = Finite (2028240960365167 / 20282409603651670423947251286016)"
  "fl_sub (Finite 1910) (Finite (2028240960365167 / 20282409603651670423947251286016)) = Finite 1910"
  "fl_sub (Finite 1910) (Finite 1910) = Finite 0"
  "fl_div (Finite 0) (Finite (5764607523034235 / 576460752303423488)) = Inr (Finite 0)"
  "fl_mul (Finite 0) (Finite 1000000000000000) = Finite 0"
  "fl_sub (Finite 0) (Finite 10) = Finite (- 10)"
  by code_simp+

lemma fl_div_nonzero:
  assumes "b \<noteq> 0"
  shows "\<exists>q. fl_div x (Finite b) = Inr q"
  using assms by (cases x) simp_all

lemma calculate_sl_price_shape:
  assumes sc: "symbol_config cfg sy = Some sc"
    and pip: "lit (pip_size sc) = Finite p" "0 < p"
    and pv: "lit (pip_value_per_std_lot sc) = Finite v" "0 < v"
    and lot: "0 < l"
  shows "\<exists>D. (D = PosInf \<or> (\<exists>d. D = Finite d \<and> 0 \<le> d))
           \<and> calculate_sl_price cfg (Finite e) dir sy (Finite l)
               = Inr (if dir = ''buy'' then fl_sub (Finite e) D else fl_add (Finite e) D, D)"
proof -
  have vl: "0 \<le> v * l" using pv lot by simp
  have half: "fl_mul (lit (1 / 100)) (Finite 50) = Finite (1 / 2)"
    by (simp only: double_literals)
  from round_double_nonneg [OF vl] consider
      (inf) "round_double (v * l) = PosInf"
    | (zero) "round_double (v * l) = Finite 0"
    | (pos) a where "round_double (v * l) = Finite a" "0 < a"
    by (metis less_eq_real_def)
  then show ?thesis
  proof cases
    case inf
    have "calculate_sl_price cfg (Finite e) dir sy (Finite l)
            = Inr (if dir = ''buy'' then fl_sub (Finite e) (Finite 0)
                   else fl_add (Finite e) (Finite 0), Finite 0)"
      using sc pip pv inf
      by (simp add: calculate_sl_price_def fixed_sl_dollar_def Let_def round_double_def)
    then show ?thesis by blast
  next
    case zero
    have "calculate_sl_price cfg (Finite e) dir sy (Finite l)
            = Inr (if dir = ''buy'' then fl_sub (Finite e) (Finite (1 / 2))
                   else fl_add (Finite e) (Finite (1 / 2)), Finite (1 / 2))"
      using sc pip pv zero half
      by (simp add: calculate_sl_price_def fixed_sl_dollar_def Let_def)
    moreover have "(0::real) \<le> 1 / 2" by simp
    ultimately show ?thesis by blast
  next
    case pos
    have q: "0 \<le> 10 / a" using pos by simp
    from round_double_nonneg [OF q] show ?thesis
    proof (elim disjE exE conjE)
      assume b: "round_double (10 / a) = PosInf"
      have "calculate_sl_price cfg (Finite e) dir sy (Finite l)
            = Inr (if dir = ''buy'' then fl_sub (Finite e) PosInf
                   else fl_add (Finite e) PosInf, PosInf)"
        using sc pip pv pos b
        by (simp add: calculate_sl_price_def fixed_sl_dollar_def Let_def)
      then show ?thesis by blast
    next
      fix b assume b: "round_double (10 / a) = Finite b" "0 \<le> b"
      have bp: "0 \<le> b * p" using b pip by simp
      from round_double_nonneg [OF bp] obtain D where
        D: "round_double (b * p) = D" "D = PosInf \<or> (\<exists>d. D = Finite d \<and> 0 \<le> d)"
        by blast
      have "calculate_sl_price cfg (Finite e) dir sy (Finite l)
            = Inr (if dir = ''buy'' then fl_sub (Finite e) D else fl_add (Finite e) D, D)"
        using sc pip pv pos b D(1)
        by (simp add: calculate_sl_price_def fixed_sl_dollar_def Let_def)
      then show ?thesis using D(2) by blast
    qed
  qed
qed

text \<open>
  The two methods, operation by operation. With the pip size, the pip value and the lot size
  between \<open>2\<^sup>-\<^sup>1\<^sup>0\<^sup>0\<close> and \<open>2\<^sup>1\<^sup>0\<^sup>0\<close> no operation overflows or underflows, and each of them
  adds a relative error of at most one part in a thousand to the exact value
  \<open>d = 10 / (v * l) * p\<close> of the distance. The subtraction from the entry price is different: its
  error is relative to the entry price, so the entry price must not exceed \<open>2\<^sup>3\<^sup>0\<close> times the
  distance.
\<close>

lemma ten_range: "(2::real) powi 3 \<le> 10" "(10::real) \<le> 2 powi 4"
  by simp_all

lemma ideal_ranges:
  fixes p v l :: real
  assumes p: "2 powi (- 100) \<le> p" "p \<le> 2 powi 100"
    and v: "2 powi (- 100) \<le> v" "v \<le> 2 powi 100"
    and l: "2 powi (- 100) \<le> l" "l \<le> 2 powi 100"
  shows "2 powi (- 400) \<le> v * l" "v * l \<le> 2 powi 400"
    "2 powi (- 400) \<le> 10 / (v * l)" "10 / (v * l) \<le> 2 powi 400"
    "2 powi (- 400) \<le> 10 / (v * l) * p" "10 / (v * l) * p \<le> 2 powi 400"
proof -
  from pow2_range_mult [OF v l] have a: "2 powi (- 200) \<le> v * l" "v * l \<le> 2 powi 200"
    by simp_all
  from pow2_range_inverse [OF a] have ia: "2 powi (- 200) \<le> 1 / (v * l)" "1 / (v * l) \<le> 2 powi 200"
    by simp_all
  from pow2_range_mult [OF ten_range ia]
  have b: "2 powi (- 197) \<le> 10 / (v * l)" "10 / (v * l) \<le> 2 powi 204" by simp_all
  from pow2_range_mult [OF b p]
  have d: "2 powi (- 297) \<le> 10 / (v * l) * p" "10 / (v * l) * p \<le> 2 powi 304" by simp_all
  show "2 powi (- 400) \<le> v * l" "v * l \<le> 2 powi 400"
    using pow2_range_widen [OF a] by simp_all
  show "2 powi (- 400) \<le> 10 / (v * l)" "10 / (v * l) \<le> 2 powi 400"
    using pow2_range_widen [OF b] by simp_all
  show "2 powi (- 400) \<le> 10 / (v * l) * p" "10 / (v * l) * p \<le> 2 powi 400"
    using pow2_range_widen [OF d] by simp_all
qed

lemma pow2_pos400: "0 < (2::real) powi (- 400)"
  by (simp add: zero_less_power_int)

lemma sl_distance_bounds:
  fixes p v l :: real
  assumes p: "2 powi (- 100) \<le> p" "p \<le> 2 powi 100"
    and v: "2 powi (- 100) \<le> v" "v \<le> 2 powi 100"
    and l: "2 powi (- 100) \<le> l" "l \<le> 2 powi 100"
  shows "\<exists>A B D. round_double (v * l) = Finite A \<and> round_double (10 / A) = Finite B
           \<and> round_double (B * p) = Finite D \<and> 0 < A
           \<and> v * l * (999 / 1000) \<le> A \<and> A \<le> v * l * (1001 / 1000)
           \<and> 10 / (v * l) * p * (996 / 1000) \<le> D \<and> D \<le> 10 / (v * l) * p * (1006 / 1000)"
proof -
  define a where "a = v * l"
  define b where "b = 10 / a"
  define d where "d = b * p"
  note rng = ideal_ranges [OF p v l, folded a_def, folded b_def, folded d_def]
  have apos: "0 < a" and bpos: "0 < b" and dpos: "0 < d" and ppos: "0 < p"
    using rng pow2_pos400 p zero_less_power_int [of "2::real" "- 100"] by simp_all
  have ba: "b * a = 10" using apos by (simp add: b_def)
  from round_close [OF rng(1,2), of a] apos obtain A where
    A: "round_double a = Finite A" "a * (999 / 1000) \<le> A" "A \<le> a * (1001 / 1000)" by auto
  have Apos: "0 < A" using A apos by linarith
  have "b * (a * (999 / 1000)) \<le> b * A" using A(2) bpos by (intro mult_left_mono) auto
  then have bA1: "10 * (999 / 1000) \<le> b * A" using ba by (simp add: algebra_simps)
  have "b * A \<le> b * (a * (1001 / 1000))" using A(3) bpos by (intro mult_left_mono) auto
  then have bA2: "b * A \<le> 10 * (1001 / 1000)" using ba by (simp add: algebra_simps)
  have q1: "b * (998 / 1000) \<le> 10 / A"
  proof -
    have "b * (998 / 1000) * A \<le> 10" using bA2 by (simp add: algebra_simps)
    then show ?thesis using Apos by (simp add: pos_le_divide_eq)
  qed
  have q2: "10 / A \<le> b * (1002 / 1000)"
  proof -
    have "10 \<le> b * (1002 / 1000) * A" using bA1 by (simp add: algebra_simps)
    then show ?thesis using Apos by (simp add: pos_divide_le_eq)
  qed
  define t where "t = 10 / A"
  note q1' = q1 [folded t_def] and q2' = q2 [folded t_def]
  have "b / 2 \<le> t" "t \<le> 2 * b" using q1' q2' bpos by linarith+
  from round_close [OF rng(3,4) this] obtain B where
    B: "round_double t = Finite B" "t * (999 / 1000) \<le> B" "B \<le> t * (1001 / 1000)" by auto
  have B1: "b * (997 / 1000) \<le> B" and B2: "B \<le> b * (1004 / 1000)"
    using B(2,3) q1' q2' bpos by linarith+
  have "b * (997 / 1000) * p \<le> B * p" using B1 ppos by (intro mult_right_mono) auto
  then have m1: "d * (997 / 1000) \<le> B * p" by (simp add: d_def algebra_simps)
  have "B * p \<le> b * (1004 / 1000) * p" using B2 ppos by (intro mult_right_mono) auto
  then have m2: "B * p \<le> d * (1004 / 1000)" by (simp add: d_def algebra_simps)
  have "d / 2 \<le> B * p" "B * p \<le> 2 * d" using m1 m2 dpos by linarith+
  from round_close [OF rng(5,6) this] obtain D where
    D: "round_double (B * p) = Finite D" "B * p * (999 / 1000) \<le> D"
       "D \<le> B * p * (1001 / 1000)" by auto
  have D1: "d * (996 / 1000) \<le> D" and D2: "D \<le> d * (1006 / 1000)"
    using D m1 m2 dpos by linarith+
  show ?thesis
    using A B(1) D(1) Apos D1 D2 unfolding t_def d_def b_def a_def by blast
qed

lemma recomputed_loss_bounds:
  fixes p v l :: real
  assumes p: "2 powi (- 100) \<le> p" "p \<le> 2 powi 100"
    and v: "2 powi (- 100) \<le> v" "v \<le> 2 powi 100"
    and l: "2 powi (- 100) \<le> l" "l \<le> 2 powi 100"
    and A: "v * l * (999 / 1000) \<le> A" "A \<le> v * l * (1001 / 1000)"
    and u: "10 / (v * l) * p * (995 / 1000) \<le> u" "u \<le> 10 / (v * l) * p * (1007 / 1000)"
  shows "\<exists>U Q W. round_double u = Finite U \<and> round_double (U / p) = Finite Q
           \<and> round_double (Q * A) = Finite W \<and> 10 * (991 / 1000) \<le> W \<and> W \<le> 10 * (1015 / 1000)"
proof -
  define a where "a = v * l"
  define b where "b = 10 / a"
  define d where "d = b * p"
  note rng = ideal_ranges [OF p v l, folded a_def, folded b_def, folded d_def]
  note A' = A [folded a_def]
  note u' = u [folded a_def, folded b_def, folded d_def]
  have apos: "0 < a" and bpos: "0 < b" and dpos: "0 < d" and ppos: "0 < p"
    using rng pow2_pos400 p zero_less_power_int [of "2::real" "- 100"] by simp_all
  have ba: "b * a = 10" using apos by (simp add: b_def)
  have dp: "d / p = b" using ppos by (simp add: d_def)
  have Apos: "0 < A" using A' apos by linarith
  have "d / 2 \<le> u" "u \<le> 2 * d" using u' dpos by linarith+
  from round_close [OF rng(5,6) this] obtain U where
    U: "round_double u = Finite U" "u * (999 / 1000) \<le> U" "U \<le> u * (1001 / 1000)" by auto
  have U1: "d * (994 / 1000) \<le> U" and U2: "U \<le> d * (1009 / 1000)"
    using U u' dpos by linarith+
  define t where "t = U / p"
  have s1: "d * (994 / 1000) / p = b * (994 / 1000)"
    and s2: "d * (1009 / 1000) / p = b * (1009 / 1000)"
    unfolding dp [symmetric] by simp_all
  have "d * (994 / 1000) / p \<le> U / p" using U1 ppos by (intro divide_right_mono) auto
  then have q1: "b * (994 / 1000) \<le> t" unfolding s1 t_def .
  have "U / p \<le> d * (1009 / 1000) / p" using U2 ppos by (intro divide_right_mono) auto
  then have q2: "t \<le> b * (1009 / 1000)" unfolding s2 t_def .
  have "b / 2 \<le> t" "t \<le> 2 * b" using q1 q2 bpos by linarith+
  from round_close [OF rng(3,4) this] obtain Q where
    Q: "round_double t = Finite Q" "t * (999 / 1000) \<le> Q" "Q \<le> t * (1001 / 1000)" by auto
  have Q1: "b * (993 / 1000) \<le> Q" and Q2: "Q \<le> b * (1011 / 1000)"
    using Q(2,3) q1 q2 bpos by linarith+
  have Qpos: "0 < Q" using Q1 bpos by linarith
  have "b * (993 / 1000) * (a * (999 / 1000)) \<le> Q * A"
    using Q1 A'(1) apos bpos by (intro mult_mono) auto
  moreover have "b * (993 / 1000) * (a * (999 / 1000)) = b * a * (993 / 1000 * (999 / 1000))"
    by simp
  ultimately have w1: "10 * (992 / 1000) \<le> Q * A" using ba by simp
  have "Q * A \<le> b * (1011 / 1000) * (a * (1001 / 1000))"
    using Q2 A'(2) Apos Qpos bpos by (intro mult_mono) auto
  moreover have "b * (1011 / 1000) * (a * (1001 / 1000)) = b * a * (1011 / 1000 * (1001 / 1000))"
    by simp
  ultimately have w2: "Q * A \<le> 10 * (1013 / 1000)" using ba by simp
  have ten: "2 powi (- 400) \<le> (10::real)" "(10::real) \<le> 2 powi 400"
    using pow2_range_widen [OF ten_range] by simp_all
  have "10 / 2 \<le> Q * A" "Q * A \<le> 2 * 10" using w1 w2 by linarith+
  from round_close [OF ten this] obtain W where
    W: "round_double (Q * A) = Finite W" "Q * A * (999 / 1000) \<le> W"
       "W \<le> Q * A * (1001 / 1000)" by auto
  have "10 * (991 / 1000) \<le> W" "W \<le> 10 * (1015 / 1000)" using W w1 w2 by linarith+
  then show ?thesis using U(1) Q(1) W(1) unfolding t_def by blast
qed

lemma sl_price_error:
  fixes d s :: real
  assumes d: "2 powi (- 400) \<le> d" "d \<le> 2 powi 400" and s: "\<bar>s\<bar> \<le> 2 ^ 31 * d"
  shows "\<exists>S. round_double s = Finite S \<and> \<bar>S - s\<bar> \<le> d / 1000"
proof -
  have dpos: "0 < d" using d pow2_pos400 by linarith
  have "2 ^ 31 * d \<le> 2 powi 31 * 2 powi 400" using d by simp
  also have "\<dots> = 2 powi 431" using pow2_split [of 31 400] by simp
  also have "\<dots> \<le> 2 powi 1000" by (intro power_int_increasing) auto
  finally have "\<bar>s\<bar> \<le> 2 powi 1000" using s by linarith
  from round_double_error [OF this] obtain S where
    S: "round_double s = Finite S" "\<bar>S - s\<bar> \<le> \<bar>s\<bar> / 2 ^ 53 + 2 powi (- 1075)" by blast
  have "\<bar>s\<bar> / 2 ^ 53 \<le> 2 ^ 31 * d / 2 ^ 53" using s by (intro divide_right_mono) auto
  then have e1: "\<bar>s\<bar> / 2 ^ 53 \<le> d / 2 ^ 22" by simp
  have "(2::real) powi (- 1075) \<le> 2 powi (- 422)" by (intro power_int_increasing) auto
  also have "\<dots> = 2 powi (- 22) * 2 powi (- 400)" using pow2_split [of "- 22" "- 400"] by simp
  also have "\<dots> \<le> 2 powi (- 22) * d" using d by (intro mult_left_mono) auto
  also have "\<dots> = d / 2 ^ 22" by (simp add: power_int_minus field_simps)
  finally have e2: "2 powi (- 1075) \<le> d / 2 ^ 22" .
  have "d / 2 ^ 22 + d / 2 ^ 22 \<le> d / 1000" using dpos by simp
  then have "\<bar>S - s\<bar> \<le> d / 1000" using S(2) e1 e2 by linarith
  then show ?thesis using S(1) by blast
qed

lemma profit_booking_loss_within_tolerance:
  assumes sc: "symbol_config cfg sy = Some sc"
    and pip: "lit (pip_size sc) = Finite p"
    and pv: "lit (pip_value_per_std_lot sc) = Finite v"
    and p: "2 powi (- 100) \<le> p" "p \<le> 2 powi 100"
    and v: "2 powi (- 100) \<le> v" "v \<le> 2 powi 100"
    and l: "2 powi (- 100) \<le> l" "l \<le> 2 powi 100"
    and e: "\<bar>e\<bar> \<le> 2 ^ 30 * (10 / (v * l) * p)"
  shows "\<exists>S D W. calculate_sl_price cfg (Finite e) dir sy (Finite l) = Inr (Finite S, Finite D)
           \<and> (if dir = ''buy'' then S < e else e < S)
           \<and> actual_loss (validate_sl_loss cfg (Finite e) (Finite S) dir sy (Finite l)) = Finite W
           \<and> 10 * (991 / 1000) \<le> W \<and> W \<le> 10 * (1015 / 1000)
           \<and> valid (validate_sl_loss cfg (Finite e) (Finite S) dir sy (Finite l))"
proof -
  define d where "d = 10 / (v * l) * p"
  note rng = ideal_ranges [OF p v l]
  have drng: "2 powi (- 400) \<le> d" "d \<le> 2 powi 400" using rng(5,6) by (simp_all add: d_def)
  have dpos: "0 < d" using drng pow2_pos400 by linarith
  have ppos: "0 < p" using p zero_less_power_int [of "2::real" "- 100"] by simp
  from sl_distance_bounds [OF p v l] obtain A B D where
    A: "round_double (v * l) = Finite A" and B: "round_double (10 / A) = Finite B"
    and D: "round_double (B * p) = Finite D" and Apos: "0 < A"
    and A1: "v * l * (999 / 1000) \<le> A" and A2: "A \<le> v * l * (1001 / 1000)"
    and D1: "d * (996 / 1000) \<le> D" and D2: "D \<le> d * (1006 / 1000)"
    unfolding d_def by blast
  define s where "s = (if dir = ''buy'' then e - D else e + D)"
  have e': "\<bar>e\<bar> \<le> 2 ^ 30 * d" using e by (simp add: d_def)
  have Dpos: "0 < D" using D1 dpos by linarith
  have "\<bar>s\<bar> \<le> \<bar>e\<bar> + D" using Dpos unfolding s_def by (cases "dir = ''buy''") auto
  then have "\<bar>s\<bar> \<le> 2 ^ 31 * d" using e' D2 dpos by simp
  from sl_price_error [OF drng this] obtain S where
    S: "round_double s = Finite S" "\<bar>S - s\<bar> \<le> d / 1000" by blast
  have An: "A \<noteq> 0" using Apos by simp
  have S': "dir = ''buy'' \<Longrightarrow> round_double (e - D) = Finite S"
    "dir \<noteq> ''buy'' \<Longrightarrow> round_double (e + D) = Finite S"
    using S(1) by (simp_all add: s_def)
  have c: "calculate_sl_price cfg (Finite e) dir sy (Finite l) = Inr (Finite S, Finite D)"
    using S' by (cases "dir = ''buy''")
      (simp_all add: calculate_sl_price_def sc pip pv fixed_sl_dollar_def Let_def A B D An)
  have side: "if dir = ''buy'' then S < e else e < S"
    and u1: "d * (995 / 1000) \<le> \<bar>e - S\<bar>" and u2: "\<bar>e - S\<bar> \<le> d * (1007 / 1000)"
  proof -
    have "(if dir = ''buy'' then S < e else e < S)
        \<and> d * (995 / 1000) \<le> \<bar>e - S\<bar> \<and> \<bar>e - S\<bar> \<le> d * (1007 / 1000)"
    proof (cases "dir = ''buy''")
      case True
      then have "\<bar>S - (e - D)\<bar> \<le> d / 1000" using S(2) by (simp add: s_def)
      then have "S < e" "d * (995 / 1000) \<le> \<bar>e - S\<bar>" "\<bar>e - S\<bar> \<le> d * (1007 / 1000)"
        using D1 D2 dpos by linarith+
      then show ?thesis using True by simp
    next
      case False
      then have "\<bar>S - (e + D)\<bar> \<le> d / 1000" using S(2) by (simp add: s_def)
      then have "e < S" "d * (995 / 1000) \<le> \<bar>e - S\<bar>" "\<bar>e - S\<bar> \<le> d * (1007 / 1000)"
        using D1 D2 dpos by linarith+
      then show ?thesis using False by simp
    qed
    then show "if dir = ''buy'' then S < e else e < S"
      and "d * (995 / 1000) \<le> \<bar>e - S\<bar>" and "\<bar>e - S\<bar> \<le> d * (1007 / 1000)" by simp_all
  qed
  from recomputed_loss_bounds [OF p v l A1 A2 u1 [unfolded d_def] u2 [unfolded d_def]]
  obtain U Q W where U: "round_double \<bar>e - S\<bar> = Finite U"
    and Q: "round_double (U / p) = Finite Q" and W: "round_double (Q * A) = Finite W"
    and W1: "10 * (991 / 1000) \<le> W" and W2: "W \<le> 10 * (1015 / 1000)" by blast
  have tol: "fl_mul fixed_sl_dollar (lit (5 / 100)) = Finite (1 / 2)"
    by (simp only: fixed_sl_dollar_def double_literals)
  have pd: "fl_abs (fl_sub (Finite e) (Finite S)) = Finite U"
    using U by (simp add: round_double_abs)
  have pips: "fl_div (Finite U) (Finite p) = Inr (Finite Q)" using Q ppos by simp
  have pval: "fl_mul (Finite v) (Finite l) = Finite A" using A by simp
  have act: "fl_mul (Finite Q) (Finite A) = Finite W" using W by simp
  have "\<bar>W - 10\<bar> \<le> 1 / 2" using W1 W2 by linarith
  then have "fl_le (round_double \<bar>W - 10\<bar>) (Finite (1 / 2))"
    using is_double_half by (rule round_double_le)
  then have ok: "fl_le (fl_abs (fl_sub (Finite W) (Finite 10))) (Finite (1 / 2))"
    by (simp add: round_double_abs)
  have val: "validate_sl_loss cfg (Finite e) (Finite S) dir sy (Finite l)
             = \<lparr>valid = fl_le (fl_abs (fl_sub (Finite W) (Finite 10))) (Finite (1 / 2)),
                actual_loss = Finite W, expected_loss = Finite 10,
                difference = fl_abs (fl_sub (Finite W) (Finite 10)),
                tolerance = Some (Finite (1 / 2)), validation_error = None\<rparr>"
    using sc pip pv pd pips pval act tol
    by (simp add: validate_sl_loss_def Let_def fixed_sl_dollar_def
          del: fl_mul.simps fl_sub.simps fl_add.simps fl_div.simps fl_abs.simps)
  have al: "actual_loss (validate_sl_loss cfg (Finite e) (Finite S) dir sy (Finite l)) = Finite W"
    unfolding val by simp
  have vl: "valid (validate_sl_loss cfg (Finite e) (Finite S) dir sy (Finite l))"
    unfolding val using ok by (simp del: fl_sub.simps fl_abs.simps)
  show ?thesis using c side al W1 W2 vl by blast
qed

text \<open>
  Claim C6, as amended. For a configured symbol whose pip size and pip value are positive
  doubles, a positive lot size and an entry price that is a double, \<open>calculate_sl_price\<close>
  returns a stop-loss that is not above the entry for a buy and not below it for a sell, and
  \<open>validate_sl_loss\<close> on that stop-loss returns its diagnostics without an error: the expected
  loss is 10, the tolerance is 0.5, and \<open>valid\<close> says whether the recomputed loss differs from
  10 by at most the tolerance. When moreover the pip size, the pip value and the lot size lie
  between \<open>2\<^sup>-\<^sup>1\<^sup>0\<^sup>0\<close> and \<open>2\<^sup>1\<^sup>0\<^sup>0\<close> and the entry price is at most \<open>2\<^sup>3\<^sup>0\<close> times the exact
  distance \<open>10 / (v * l) * p\<close>, the stop-loss is finite and strictly below the entry for a buy,
  strictly above it for a sell, the recomputed loss is within 0.15 of 10, and the verdict is
  \<open>valid\<close>.
\<close>

theorem profit_booking_sl_sides:
  assumes sc: "symbol_config cfg sy = Some sc"
    and pip: "lit (pip_size sc) = Finite p" "0 < p"
    and pv: "lit (pip_value_per_std_lot sc) = Finite v" "0 < v"
    and lot: "0 < l"
    and entry: "is_double e"
  shows "\<exists>sl_p sl_distance.
           calculate_sl_price cfg (Finite e) dir sy (Finite l) = Inr (sl_p, sl_distance)
         \<and> (dir = ''buy'' \<longrightarrow> fl_le sl_p (Finite e))
         \<and> (dir = ''sell'' \<longrightarrow> fl_le (Finite e) sl_p)
         \<and> validation_error (validate_sl_loss cfg (Finite e) sl_p dir sy (Finite l)) = None
         \<and> expected_loss (validate_sl_loss cfg (Finite e) sl_p dir sy (Finite l)) = Finite 10
         \<and> tolerance (validate_sl_loss cfg (Finite e) sl_p dir sy (Finite l))
             = Some (Finite (1 / 2))
         \<and> valid (validate_sl_loss cfg (Finite e) sl_p dir sy (Finite l))
             = fl_le (difference (validate_sl_loss cfg (Finite e) sl_p dir sy (Finite l)))
                 (Finite (1 / 2))
         \<and> (2 powi (- 100) \<le> p \<and> p \<le> 2 powi 100 \<and> 2 powi (- 100) \<le> v \<and> v \<le> 2 powi 100
              \<and> 2 powi (- 100) \<le> l \<and> l \<le> 2 powi 100
              \<and> \<bar>e\<bar> \<le> 2 ^ 30 * (10 / (v * l) * p)
            \<longrightarrow> (\<exists>S W. sl_p = Finite S
                   \<and> (dir = ''buy'' \<longrightarrow> S < e) \<and> (dir = ''sell'' \<longrightarrow> e < S)
                   \<and> actual_loss (validate_sl_loss cfg (Finite e) sl_p dir sy (Finite l))
                       = Finite W
                   \<and> \<bar>W - 10\<bar> \<le> 3 / 20
                   \<and> valid (validate_sl_loss cfg (Finite e) sl_p dir sy (Finite l))))"
proof -
  from calculate_sl_price_shape [OF sc pip pv lot] obtain D where
    D: "D = PosInf \<or> (\<exists>d. D = Finite d \<and> 0 \<le> d)"
    and c: "calculate_sl_price cfg (Finite e) dir sy (Finite l)
               = Inr (if dir = ''buy'' then fl_sub (Finite e) D else fl_add (Finite e) D, D)"
    by blast
  let ?s = "if dir = ''buy'' then fl_sub (Finite e) D else fl_add (Finite e) D"
  let ?r = "validate_sl_loss cfg (Finite e) ?s dir sy (Finite l)"
  have buy: "fl_le (fl_sub (Finite e) D) (Finite e)"
  proof -
    from D show ?thesis
    proof (elim disjE exE conjE)
      assume "D = PosInf" then show ?thesis by simp
    next
      fix d assume d: "D = Finite d" "0 \<le> d"
      have "e - d \<le> e" using d by simp
      then have "fl_le (round_double (e - d)) (Finite e)" using entry by (rule round_double_le)
      then show ?thesis using d by simp
    qed
  qed
  have sell: "fl_le (Finite e) (fl_add (Finite e) D)"
  proof -
    from D show ?thesis
    proof (elim disjE exE conjE)
      assume "D = PosInf" then show ?thesis by simp
    next
      fix d assume d: "D = Finite d" "0 \<le> d"
      have "e \<le> e + d" using d by simp
      then have "fl_le (Finite e) (round_double (e + d))" using entry by (rule round_double_ge)
      then show ?thesis using d by simp
    qed
  qed
  have tol: "fl_mul fixed_sl_dollar (lit (5 / 100)) = Finite (1 / 2)"
    by (simp only: fixed_sl_dollar_def double_literals)
  have pn: "p \<noteq> 0" using pip by simp
  obtain q where q: "fl_div (fl_abs (fl_sub (Finite e) ?s)) (Finite p) = Inr q"
    using fl_div_nonzero [OF pn] by blast
  have v: "?r = \<lparr>valid = fl_le (fl_abs (fl_sub (fl_mul q (fl_mul (Finite v) (Finite l)))
                                      (Finite 10))) (Finite (1 / 2)),
                actual_loss = fl_mul q (fl_mul (Finite v) (Finite l)),
                expected_loss = Finite 10,
                difference = fl_abs (fl_sub (fl_mul q (fl_mul (Finite v) (Finite l)))
                                      (Finite 10)),
                tolerance = Some (Finite (1 / 2)), validation_error = None\<rparr>"
    using sc pip(1) pv(1) q tol
    by (simp add: validate_sl_loss_def Let_def fixed_sl_dollar_def del: fl_mul.simps fl_sub.simps fl_add.simps)
  have s1: "dir = ''buy'' \<longrightarrow> fl_le ?s (Finite e)" using buy by simp
  have s2: "dir = ''sell'' \<longrightarrow> fl_le (Finite e) ?s" using sell by simp
  have r1: "validation_error ?r = None" and r2: "expected_loss ?r = Finite 10"
    and r3: "tolerance ?r = Some (Finite (1 / 2))"
    and r4: "valid ?r = fl_le (difference ?r) (Finite (1 / 2))"
    unfolding v by simp_all
  have cond: "2 powi (- 100) \<le> p \<and> p \<le> 2 powi 100 \<and> 2 powi (- 100) \<le> v \<and> v \<le> 2 powi 100
              \<and> 2 powi (- 100) \<le> l \<and> l \<le> 2 powi 100
              \<and> \<bar>e\<bar> \<le> 2 ^ 30 * (10 / (v * l) * p)
            \<longrightarrow> (\<exists>S W. ?s = Finite S
                   \<and> (dir = ''buy'' \<longrightarrow> S < e) \<and> (dir = ''sell'' \<longrightarrow> e < S)
                   \<and> actual_loss ?r = Finite W \<and> \<bar>W - 10\<bar> \<le> 3 / 20 \<and> valid ?r)"
  proof
    assume r: "2 powi (- 100) \<le> p \<and> p \<le> 2 powi 100 \<and> 2 powi (- 100) \<le> v \<and> v \<le> 2 powi 100
              \<and> 2 powi (- 100) \<le> l \<and> l \<le> 2 powi 100
              \<and> \<bar>e\<bar> \<le> 2 ^ 30 * (10 / (v * l) * p)"
    then have rp: "2 powi (- 100) \<le> p" "p \<le> 2 powi 100"
      and rv: "2 powi (- 100) \<le> v" "v \<le> 2 powi 100"
      and rl: "2 powi (- 100) \<le> l" "l \<le> 2 powi 100"
      and re: "\<bar>e\<bar> \<le> 2 ^ 30 * (10 / (v * l) * p)" by simp_all
    from profit_booking_loss_within_tolerance [OF sc pip(1) pv(1) rp rv rl re, of dir]
    obtain S D' W where
      c': "calculate_sl_price cfg (Finite e) dir sy (Finite l) = Inr (Finite S, Finite D')"
      and side: "if dir = ''buy'' then S < e else e < S"
      and al: "actual_loss (validate_sl_loss cfg (Finite e) (Finite S) dir sy (Finite l)) = Finite W"
      and W: "10 * (991 / 1000) \<le> W" "W \<le> 10 * (1015 / 1000)"
      and vl: "valid (validate_sl_loss cfg (Finite e) (Finite S) dir sy (Finite l))" by blast
    have sS: "?s = Finite S" using c c' by simp
    have b1: "dir = ''buy'' \<longrightarrow> S < e" using side by simp
    have b2: "dir = ''sell'' \<longrightarrow> e < S" using side by auto
    have b3: "actual_loss ?r = Finite W" unfolding sS using al .
    have b4: "\<bar>W - 10\<bar> \<le> 3 / 20" using W by linarith
    have b5: "valid ?r" unfolding sS using vl .
    show "\<exists>S W. ?s = Finite S
                   \<and> (dir = ''buy'' \<longrightarrow> S < e) \<and> (dir = ''sell'' \<longrightarrow> e < S)
                   \<and> actual_loss ?r = Finite W \<and> \<bar>W - 10\<bar> \<le> 3 / 20 \<and> valid ?r"
      using sS b1 b2 b3 b4 b5 by blast
  qed
  show ?thesis
    by (rule exI [of _ ?s], rule exI [of _ D]) (intro conjI c s1 s2 r1 r2 r3 r4 cond)
qed

lemma profit_booking_symbol:
  "symbol_config profit_booking_config ''XAUUSD'' = Some \<lparr>pip_size = 1 / 100, pip_value_per_std_lot = 1\<rparr>"
  by (simp add: profit_booking_config_def scenario_config_def)

text \<open>
  Claim C6, as stated, asks for a stop-loss strictly on the loss side of the entry, a
  recomputed loss of exactly 10 and a valid verdict, at every positive lot size. At entry
  1910.0, pip size 0.01, pip value 1.0 and lot 0.03 the recomputed loss is the double
  9.999999999999773; at lot \<open>10\<^sup>1\<^sup>5\<close> the distance is lost in the subtraction, the stop-loss
  is the entry itself and the verdict is not valid.
\<close>

theorem profit_booking_sl_rounding_counterexample:
  "calculate_sl_price profit_booking_config (Finite 1910) ''buy'' ''XAUUSD'' (lit (3 / 100))
     = Inr (Finite (8385608681171627 / 4398046511104),
            Finite (1876499844737707 / 562949953421312))
 \<and> actual_loss (validate_sl_loss profit_booking_config (Finite 1910)
                  (Finite (8385608681171627 / 4398046511104)) ''buy'' ''XAUUSD''
                  (lit (3 / 100)))
     = Finite (43980465111039 / 4398046511104)
 \<and> actual_loss (validate_sl_loss profit_booking_config (Finite 1910)
                  (Finite (8385608681171627 / 4398046511104)) ''buy'' ''XAUUSD''
                  (lit (3 / 100)))
     \<noteq> Finite 10
 \<and> calculate_sl_price profit_booking_config (Finite 1910) ''buy'' ''XAUUSD'' (Finite (10 ^ 15))
     = Inr (Finite 1910, Finite (2028240960365167 / 20282409603651670423947251286016))
 \<and> \<not> valid (validate_sl_loss profit_booking_config (Finite 1910) (Finite 1910) ''buy'' ''XAUUSD''
              (Finite (10 ^ 15)))"
proof -
  have c1: "calculate_sl_price profit_booking_config (Finite 1910) ''buy'' ''XAUUSD'' (lit (3 / 100))
     = Inr (Finite (8385608681171627 / 4398046511104),
            Finite (1876499844737707 / 562949953421312))"
    by (simp add: calculate_sl_price_def profit_booking_symbol fixed_sl_dollar_def Let_def
          double_literals loss_chain_small_lot
          del: fl_mul.simps fl_div.simps fl_sub.simps fl_add.simps)
  have a1: "actual_loss (validate_sl_loss profit_booking_config (Finite 1910)
                  (Finite (8385608681171627 / 4398046511104)) ''buy'' ''XAUUSD''
                  (lit (3 / 100)))
     = Finite (43980465111039 / 4398046511104)"
    by (simp add: validate_sl_loss_def profit_booking_symbol fixed_sl_dollar_def Let_def
          double_literals loss_chain_small_lot
          del: fl_mul.simps fl_div.simps fl_sub.simps fl_add.simps)
  have c2: "calculate_sl_price profit_booking_config (Finite 1910) ''buy'' ''XAUUSD'' (Finite (10 ^ 15))
     = Inr (Finite 1910, Finite (2028240960365167 / 20282409603651670423947251286016))"
    by (simp add: calculate_sl_price_def profit_booking_symbol fixed_sl_dollar_def Let_def
          double_literals loss_chain_huge_lot
          del: fl_mul.simps fl_div.simps fl_sub.simps fl_add.simps)
  have v2: "\<not> valid (validate_sl_loss profit_booking_config (Finite 1910) (Finite 1910) ''buy'' ''XAUUSD''
              (Finite (10 ^ 15)))"
    by (simp add: validate_sl_loss_def profit_booking_symbol fixed_sl_dollar_def Let_def
          double_literals loss_chain_huge_lot
          del: fl_mul.simps fl_div.simps fl_sub.simps fl_add.simps)
  show ?thesis using c1 a1 c2 v2 by simp
qed

lemma is_double_1910: "is_double 1910"
  unfolding is_double_def by code_simp

theorem profit_booking_sl_sides_witness:
  "calculate_sl_price profit_booking_config (Finite 1910) ''buy'' ''XAUUSD''
      (Finite (1080863910568919 / 36028797018963968))
     = Inr (Finite (8385608681171627 / 4398046511104),
            Finite (1876499844737707 / 562949953421312))
 \<and> fl_le (Finite (8385608681171627 / 4398046511104)) (Finite 1910)
 \<and> tolerance (validate_sl_loss profit_booking_config (Finite 1910)
                 (Finite (8385608681171627 / 4398046511104)) ''buy'' ''XAUUSD''
                 (Finite (1080863910568919 / 36028797018963968)))
     = Some (Finite (1 / 2))
 \<and> valid (validate_sl_loss profit_booking_config (Finite 1910)
                 (Finite (8385608681171627 / 4398046511104)) ''buy'' ''XAUUSD''
                 (Finite (1080863910568919 / 36028797018963968)))"
proof -
  let ?l = "1080863910568919 / 36028797018963968 :: real"
  let ?p = "5764607523034235 / 576460752303423488 :: real"
  have pip: "lit (pip_size \<lparr>pip_size = 1 / 100, pip_value_per_std_lot = 1\<rparr>) = Finite ?p"
    by (simp add: double_literals)
  have pp: "0 < ?p" by simp
  have pv: "lit (pip_value_per_std_lot \<lparr>pip_size = 1 / 100, pip_value_per_std_lot = 1\<rparr>)
               = Finite 1"
    by (simp add: double_literals)
  have vp: "(0::real) < 1" by simp
  have lot: "0 < ?l" by simp
  have rng: "2 powi (- 100) \<le> ?p \<and> ?p \<le> 2 powi 100 \<and> 2 powi (- 100) \<le> (1::real)
      \<and> (1::real) \<le> 2 powi 100 \<and> 2 powi (- 100) \<le> ?l \<and> ?l \<le> 2 powi 100
      \<and> \<bar>1910::real\<bar> \<le> 2 ^ 30 * (10 / (1 * ?l) * ?p)"
    by (simp add: power_int_minus)
  have c1: "calculate_sl_price profit_booking_config (Finite 1910) ''buy'' ''XAUUSD'' (Finite ?l)
     = Inr (Finite (8385608681171627 / 4398046511104),
            Finite (1876499844737707 / 562949953421312))"
    by (simp add: calculate_sl_price_def profit_booking_symbol fixed_sl_dollar_def Let_def
          double_literals loss_chain_small_lot
          del: fl_mul.simps fl_div.simps fl_sub.simps fl_add.simps)
  from profit_booking_sl_sides [OF profit_booking_symbol pip pp pv vp lot is_double_1910, of "''buy''"]
  show ?thesis unfolding c1 using rng by auto
qed

end
